theory Spec2Isabelle
  imports Main "HOL-Library.AList" "HOL-Library.Sublist"
begin

section \<open>Python values\<close>

text \<open>
  The tool in \<^verbatim>\<open>src/tools/openmeteo.py\<close> moves values between a request object, two
  JSON documents and two query strings. The values it handles are the ones
  \<^verbatim>\<open>json.loads\<close> produces: \<^verbatim>\<open>None\<close>, booleans, unbounded integers, floats, strings,
  lists and dicts.

  \<^item> A string is a \<open>string\<close>; each \<open>char\<close> is read as one code point in the range
    U+0000 .. U+00FF.
  \<^item> A float is carried as the text \<^verbatim>\<open>repr\<close> gives for it (\<^verbatim>\<open>5.0\<close>, \<^verbatim>\<open>52.52\<close>,
    \<^verbatim>\<open>1e+16\<close>, \<^verbatim>\<open>inf\<close>, \<^verbatim>\<open>nan\<close>): the tool never computes with a float, it only
    prints it and tests its truth value.
  \<^item> A dict is an association list in insertion order.
\<close>

datatype pyval =
    PyNone
  | PyBool bool
  | PyInt int
  | PyFloat string
  | PyStr string
  | PyList "pyval list"
  | PyDict "(string \<times> pyval) list"

datatype pykey = StrKey string | IntKey int

text \<open>
  Every exception the tool can raise is a value. \<open>RequestsConnectionError\<close> and
  \<open>HttpxTransportError\<close> stand for the network-level failures of the two HTTP clients
  (connection refused, timeout, DNS), \<open>RequestsHTTPError\<close> and \<open>HttpxHTTPStatusError\<close>
  for what the two \<^verbatim>\<open>raise_for_status\<close> methods raise, with the status code.
\<close>

datatype error =
    ValueError string
  | KeyError pykey
  | TypeError
  | AttributeError
  | IndexError
  | JSONDecodeError
  | RequestsConnectionError
  | RequestsHTTPError nat
  | HttpxTransportError
  | HttpxHTTPStatusError nat

text \<open>Truth value testing: \<^verbatim>\<open>if x:\<close>, \<^verbatim>\<open>not x\<close>, \<^verbatim>\<open>x or y\<close>.\<close>

fun truthy :: "pyval \<Rightarrow> bool" where
  "truthy PyNone = False"
| "truthy (PyBool b) = b"
| "truthy (PyInt i) = (i \<noteq> 0)"
| "truthy (PyFloat r) = (r \<noteq> ''0.0'' \<and> r \<noteq> ''-0.0'')"
| "truthy (PyStr s) = (s \<noteq> [])"
| "truthy (PyList xs) = (xs \<noteq> [])"
| "truthy (PyDict kvs) = (kvs \<noteq> [])"

text \<open>An \<^verbatim>\<open>Optional[str]\<close> field is \<^verbatim>\<open>None\<close> or a string.\<close>

fun opt_truthy :: "string option \<Rightarrow> bool" where
  "opt_truthy None = False"
| "opt_truthy (Some s) = (s \<noteq> [])"

text \<open>\<^verbatim>\<open>x or d\<close> for an \<^verbatim>\<open>Optional[str]\<close> \<open>x\<close> and a string \<open>d\<close>.\<close>

fun opt_or :: "string option \<Rightarrow> string \<Rightarrow> string" where
  "opt_or None d = d"
| "opt_or (Some s) d = (if s \<noteq> [] then s else d)"

text \<open>\<^verbatim>\<open>obj.get("results", [])\<close>: only a dict has the method.\<close>

fun get_results :: "pyval \<Rightarrow> error + pyval" where
  "get_results (PyDict kvs) =
     (case map_of kvs ''results'' of None \<Rightarrow> Inr (PyList []) | Some v \<Rightarrow> Inr v)"
| "get_results _ = Inl AttributeError"

text \<open>\<^verbatim>\<open>obj[0]\<close>.\<close>

fun subscript_0 :: "pyval \<Rightarrow> error + pyval" where
  "subscript_0 (PyList []) = Inl IndexError"
| "subscript_0 (PyList (x # xs)) = Inr x"
| "subscript_0 (PyStr []) = Inl IndexError"
| "subscript_0 (PyStr (c # cs)) = Inr (PyStr [c])"
| "subscript_0 (PyDict kvs) = Inl (KeyError (IntKey 0))"
| "subscript_0 _ = Inl TypeError"

text \<open>\<^verbatim>\<open>obj[k]\<close> for a string key \<open>k\<close>.\<close>

fun subscript_str :: "pyval \<Rightarrow> string \<Rightarrow> error + pyval" where
  "subscript_str (PyDict kvs) k =
     (case map_of kvs k of None \<Rightarrow> Inl (KeyError (StrKey k)) | Some v \<Rightarrow> Inr v)"
| "subscript_str _ k = Inl TypeError"

section \<open>Text rendering of the standard library\<close>

subsection \<open>Digits and numbers\<close>

definition digit_lower :: "nat \<Rightarrow> char" where
  "digit_lower n = ''0123456789abcdef'' ! (n mod 16)"

definition digit_upper :: "nat \<Rightarrow> char" where
  "digit_upper n = ''0123456789ABCDEF'' ! (n mod 16)"

fun nat_dec :: "nat \<Rightarrow> string" where
  "nat_dec n = (if n < 10 then [digit_lower n] else nat_dec (n div 10) @ [digit_lower (n mod 10)])"

declare nat_dec.simps [simp del]

text \<open>\<^verbatim>\<open>str(i)\<close> for an integer.\<close>

definition int_dec :: "int \<Rightarrow> string" where
  "int_dec i = (if i < 0 then CHR ''-'' # nat_dec (nat (- i)) else nat_dec (nat i))"

text \<open>\<^verbatim>\<open>s.zfill(w)\<close> for a string of digits.\<close>

definition zfill :: "nat \<Rightarrow> string \<Rightarrow> string" where
  "zfill w s = replicate (w - length s) CHR ''0'' @ s"

text \<open>\<^verbatim>\<open>sep.join(parts)\<close>.\<close>

fun join :: "string \<Rightarrow> string list \<Rightarrow> string" where
  "join sep [] = []"
| "join sep [x] = x"
| "join sep (x # y # ys) = x @ sep @ join sep (y # ys)"

subsection \<open>Dates\<close>

text \<open>
  \<^verbatim>\<open>datetime.now(tz=UTC).date()\<close> is a calendar date; \<^verbatim>\<open>str\<close> of it is its ISO form
  \<^verbatim>\<open>YYYY-MM-DD\<close>, each part zero-padded.
\<close>

record date =
  year :: nat
  month :: nat
  day :: nat

definition date_str :: "date \<Rightarrow> string" where
  "date_str d =
     zfill 4 (nat_dec (year d)) @ ''-'' @ zfill 2 (nat_dec (month d)) @ ''-'' @
     zfill 2 (nat_dec (day d))"

subsection \<open>\<^verbatim>\<open>repr\<close> and \<^verbatim>\<open>str\<close>\<close>

definition printable :: "nat \<Rightarrow> bool" where
  "printable n = (32 \<le> n \<and> n < 127 \<or> 161 \<le> n \<and> n \<noteq> 173)"

definition repr_char :: "char \<Rightarrow> char \<Rightarrow> string" where
  "repr_char q c =
     (if c = q \<or> c = CHR 0x5C then [CHR 0x5C, c]
      else if c = CHR 0x09 then [CHR 0x5C, CHR ''t'']
      else if c = CHR 0x0A then [CHR 0x5C, CHR ''n'']
      else if c = CHR 0x0D then [CHR 0x5C, CHR ''r'']
      else if printable (of_char c) then [c]
      else [CHR 0x5C, CHR ''x'', digit_lower (of_char c div 16), digit_lower (of_char c mod 16)])"

definition repr_str :: "string \<Rightarrow> string" where
  "repr_str s =
     (let q = (if CHR 0x27 \<in> set s \<and> CHR 0x22 \<notin> set s then CHR 0x22 else CHR 0x27)
      in q # concat (map (repr_char q) s) @ [q])"

fun py_repr :: "pyval \<Rightarrow> string" where
  "py_repr PyNone = ''None''"
| "py_repr (PyBool b) = (if b then ''True'' else ''False'')"
| "py_repr (PyInt i) = int_dec i"
| "py_repr (PyFloat r) = r"
| "py_repr (PyStr s) = repr_str s"
| "py_repr (PyList xs) = ''['' @ join '', '' (map py_repr xs) @ '']''"
| "py_repr (PyDict kvs) =
     ''{'' @ join '', '' (map (\<lambda>kv. repr_str (fst kv) @ '': '' @ py_repr (snd kv)) kvs) @ ''}''"

fun py_str :: "pyval \<Rightarrow> string" where
  "py_str (PyStr s) = s"
| "py_str v = py_repr v"

subsection \<open>\<^verbatim>\<open>urllib.parse.urlencode\<close>\<close>

definition always_safe :: "char \<Rightarrow> bool" where
  "always_safe c =
     (c \<in> set ''ABCDEFGHIJKLMNOPQRSTUVWXYZabcdefghijklmnopqrstuvwxyz0123456789_.-~'')"

definition percent :: "nat \<Rightarrow> string" where
  "percent b = [CHR ''%'', digit_upper (b div 16), digit_upper (b mod 16)]"

definition utf8 :: "nat \<Rightarrow> nat list" where
  "utf8 n = (if n < 128 then [n] else [192 + n div 64, 128 + n mod 64])"

definition quote_plus_char :: "char \<Rightarrow> string" where
  "quote_plus_char c =
     (if c = CHR '' '' then ''+''
      else if always_safe c then [c]
      else concat (map percent (utf8 (of_char c))))"

definition quote_plus :: "string \<Rightarrow> string" where
  "quote_plus s = concat (map quote_plus_char s)"

definition urlencode :: "(string \<times> pyval) list \<Rightarrow> string" where
  "urlencode query =
     join ''&'' (map (\<lambda>kv. quote_plus (fst kv) @ ''='' @ quote_plus (py_str (snd kv))) query)"

subsection \<open>\<^verbatim>\<open>json.dumps(obj, indent=2)\<close>\<close>

definition escape_char :: "char \<Rightarrow> string" where
  "escape_char c =
     (if c = CHR 0x22 then [CHR 0x5C, CHR 0x22]
      else if c = CHR 0x5C then [CHR 0x5C, CHR 0x5C]
      else if c = CHR 0x0A then [CHR 0x5C, CHR ''n'']
      else if c = CHR 0x0D then [CHR 0x5C, CHR ''r'']
      else if c = CHR 0x09 then [CHR 0x5C, CHR ''t'']
      else if c = CHR 0x08 then [CHR 0x5C, CHR ''b'']
      else if c = CHR 0x0C then [CHR 0x5C, CHR ''f'']
      else if 32 \<le> (of_char c :: nat) \<and> (of_char c :: nat) < 127 then [c]
      else [CHR 0x5C, CHR ''u'', CHR ''0'', CHR ''0'',
            digit_lower (of_char c div 16), digit_lower (of_char c mod 16)])"

definition encode_basestring_ascii :: "string \<Rightarrow> string" where
  "encode_basestring_ascii s = CHR 0x22 # concat (map escape_char s) @ [CHR 0x22]"

definition float_json :: "string \<Rightarrow> string" where
  "float_json r =
     (if r = ''nan'' then ''NaN''
      else if r = ''inf'' then ''Infinity''
      else if r = ''-inf'' then ''-Infinity''
      else r)"

definition newline_indent :: "nat \<Rightarrow> string" where
  "newline_indent level = CHR 0x0A # replicate (2 * level) CHR '' ''"

fun iterencode :: "nat \<Rightarrow> pyval \<Rightarrow> string" where
  "iterencode level PyNone = ''null''"
| "iterencode level (PyBool b) = (if b then ''true'' else ''false'')"
| "iterencode level (PyInt i) = int_dec i"
| "iterencode level (PyFloat r) = float_json r"
| "iterencode level (PyStr s) = encode_basestring_ascii s"
| "iterencode level (PyList xs) =
     (if xs = [] then ''[]''
      else ''['' @ newline_indent (Suc level) @
           join ('','' @ newline_indent (Suc level)) (map (iterencode (Suc level)) xs) @
           newline_indent level @ '']'')"
| "iterencode level (PyDict kvs) =
     (if kvs = [] then ''{}''
      else ''{'' @ newline_indent (Suc level) @
           join ('','' @ newline_indent (Suc level))
             (map (\<lambda>kv. encode_basestring_ascii (fst kv) @ '': '' @
                         iterencode (Suc level) (snd kv)) kvs) @
           newline_indent level @ ''}'')"

definition json_dumps_indent2 :: "pyval \<Rightarrow> string" where
  "json_dumps_indent2 obj = iterencode 0 obj"

section \<open>Reading an indented JSON text back\<close>

text \<open>
  A reader of JSON documents laid out with an indent of two spaces, written independently
  of the rendering above: it is the yardstick for what \<^verbatim>\<open>json.dumps(obj, indent=2)\<close> has
  to produce.
\<close>

text \<open>\<open>strip p s\<close> takes the text \<open>p\<close> off the front of \<open>s\<close>, if \<open>s\<close> starts with it.\<close>

definition strip :: "string \<Rightarrow> string \<Rightarrow> string option" where
  "strip p s = (if prefix p s then Some (drop (length p) s) else None)"

text \<open>The value of a lower-case hexadecimal digit.\<close>

definition hex_val :: "char \<Rightarrow> nat option" where
  "hex_val c =
     (if c \<in> set ''0123456789'' then Some (of_char c - 48)
      else if c \<in> set ''abcdef'' then Some (of_char c - 87)
      else None)"

text \<open>
  The code points written as \<^verbatim>\<open>\u00XX\<close>: those outside \<^verbatim>\<open>U+0020 .. U+007E\<close> that have no
  two-character escape.
\<close>

definition escaped_by_code :: "char \<Rightarrow> bool" where
  "escaped_by_code d =
     (((of_char d :: nat) < 32 \<or> 127 \<le> (of_char d :: nat)) \<and>
      d \<notin> set [CHR 0x08, CHR 0x09, CHR 0x0A, CHR 0x0C, CHR 0x0D])"

text \<open>
  What follows a backslash inside a JSON string: the character meant and the rest. Each
  character has one accepted spelling.
\<close>

fun unescape :: "string \<Rightarrow> (char \<times> string) option" where
  "unescape (e # cs) =
     (if e = CHR 0x22 then Some (CHR 0x22, cs)
      else if e = CHR 0x5C then Some (CHR 0x5C, cs)
      else if e = CHR ''n'' then Some (CHR 0x0A, cs)
      else if e = CHR ''r'' then Some (CHR 0x0D, cs)
      else if e = CHR ''t'' then Some (CHR 0x09, cs)
      else if e = CHR ''b'' then Some (CHR 0x08, cs)
      else if e = CHR ''f'' then Some (CHR 0x0C, cs)
      else if e = CHR ''u'' then
        (case cs of
           a # b # h # l # r \<Rightarrow>
             (if a = CHR ''0'' \<and> b = CHR ''0'' then
                (case (hex_val h, hex_val l) of
                   (Some x, Some y) \<Rightarrow>
                     if escaped_by_code (char_of (16 * x + y)) then Some (char_of (16 * x + y), r)
                     else None
                 | _ \<Rightarrow> None)
              else None)
         | _ \<Rightarrow> None)
      else None)"
| "unescape [] = None"

text \<open>
  The characters of a JSON string up to its closing quote, and the rest. A character
  outside \<^verbatim>\<open>U+0020 .. U+007E\<close> must come escaped.
\<close>

function read_string :: "string \<Rightarrow> (string \<times> string) option" where
  "read_string [] = None"
| "read_string (c # cs) =
     (if c = CHR 0x22 then Some ([], cs)
      else if c = CHR 0x5C then
        (case unescape cs of
           None \<Rightarrow> None
         | Some (d, r) \<Rightarrow>
             (case read_string r of None \<Rightarrow> None | Some (t, r') \<Rightarrow> Some (d # t, r')))
      else if 32 \<le> (of_char c :: nat) \<and> (of_char c :: nat) < 127 then
        (case read_string cs of None \<Rightarrow> None | Some (t, r') \<Rightarrow> Some (c # t, r'))
      else None)"
  by pat_completeness auto

termination
  by (relation "measure length")
    (auto elim!: unescape.elims split: if_splits list.splits option.splits)

declare read_string.simps [simp del]

text \<open>
  A number is the longest run of the characters \<^verbatim>\<open>+-.0123456789e\<close>. A run of digits,
  with or without a sign \<^verbatim>\<open>-\<close>, is an integer; every other run is a float and is kept as
  its text. An integer has no leading zero, and no sign when it is zero.
\<close>

definition is_digit :: "char \<Rightarrow> bool" where
  "is_digit c = (c \<in> set ''0123456789'')"

definition number_char :: "char \<Rightarrow> bool" where
  "number_char c = (c \<in> set ''+-.0123456789e'')"

definition dec_val :: "string \<Rightarrow> nat" where
  "dec_val ds = foldl (\<lambda>a c. 10 * a + (of_char c - 48)) 0 ds"

text \<open>A number ends where the text ends or a character follows that no number has.\<close>

definition number_end :: "string \<Rightarrow> bool" where
  "number_end s = (case s of [] \<Rightarrow> True | c # cs \<Rightarrow> \<not> number_char c)"

definition read_number :: "string \<Rightarrow> (pyval \<times> string) option" where
  "read_number s =
     (let tok = takeWhile number_char s; rest = dropWhile number_char s
      in if tok = [] then None
         else if tok = ''-'' then
           (case strip ''Infinity'' rest of
              None \<Rightarrow> None
            | Some r \<Rightarrow> Some (PyFloat ''-inf'', r))
         else if list_all is_digit tok then
           (if tok = ''0'' \<or> hd tok \<noteq> CHR ''0'' then Some (PyInt (int (dec_val tok)), rest)
            else None)
         else if hd tok = CHR ''-'' \<and> list_all is_digit (tl tok) then
           (if hd (tl tok) \<noteq> CHR ''0'' then Some (PyInt (- int (dec_val (tl tok))), rest)
            else None)
         else Some (PyFloat tok, rest))"

text \<open>A line break and two spaces for each level of nesting.\<close>

definition line_start :: "nat \<Rightarrow> string" where
  "line_start level = CHR 0x0A # concat (replicate level ''  '')"

text \<open>
  The reader recurses on a count that every call decreases, \<open>read_json\<close> starts it with the
  length of the text. \<open>read_value n level s\<close> reads one value that starts on a line of
  nesting \<open>level\<close>; \<open>read_items\<close> and \<open>read_members\<close> read the entries of a list and of an
  object up to the closing bracket, each entry on a line of its own, one level deeper. The
  layout is fixed: nothing but the line breaks and indentation shown is accepted.
\<close>

fun read_value :: "nat \<Rightarrow> nat \<Rightarrow> string \<Rightarrow> (pyval \<times> string) option"
  and read_items :: "nat \<Rightarrow> nat \<Rightarrow> string \<Rightarrow> (pyval list \<times> string) option"
  and read_members :: "nat \<Rightarrow> nat \<Rightarrow> string \<Rightarrow> ((string \<times> pyval) list \<times> string) option"
where
  "read_value 0 level s = None"
| "read_value (Suc n) level [] = None"
| "read_value (Suc n) level (c # cs) =
     (if c = CHR 0x22 then
        (case read_string cs of None \<Rightarrow> None | Some (t, r) \<Rightarrow> Some (PyStr t, r))
      else if c = CHR ''['' then
        (case strip '']'' cs of
           Some r \<Rightarrow> Some (PyList [], r)
         | None \<Rightarrow>
             (case strip (line_start (Suc level)) cs of
                None \<Rightarrow> None
              | Some r \<Rightarrow>
                  (case read_items n level r of
                     None \<Rightarrow> None
                   | Some (xs, r') \<Rightarrow> Some (PyList xs, r'))))
      else if c = CHR ''{'' then
        (case strip ''}'' cs of
           Some r \<Rightarrow> Some (PyDict [], r)
         | None \<Rightarrow>
             (case strip (line_start (Suc level)) cs of
                None \<Rightarrow> None
              | Some r \<Rightarrow>
                  (case read_members n level r of
                     None \<Rightarrow> None
                   | Some (kvs, r') \<Rightarrow> Some (PyDict kvs, r'))))
      else if c = CHR ''n'' then
        (case strip ''ull'' cs of None \<Rightarrow> None | Some r \<Rightarrow> Some (PyNone, r))
      else if c = CHR ''t'' then
        (case strip ''rue'' cs of None \<Rightarrow> None | Some r \<Rightarrow> Some (PyBool True, r))
      else if c = CHR ''f'' then
        (case strip ''alse'' cs of None \<Rightarrow> None | Some r \<Rightarrow> Some (PyBool False, r))
      else if c = CHR ''N'' then
        (case strip ''aN'' cs of None \<Rightarrow> None | Some r \<Rightarrow> Some (PyFloat ''nan'', r))
      else if c = CHR ''I'' then
        (case strip ''nfinity'' cs of None \<Rightarrow> None | Some r \<Rightarrow> Some (PyFloat ''inf'', r))
      else read_number (c # cs))"
| "read_items 0 level s = None"
| "read_items (Suc n) level s =
     (case read_value n (Suc level) s of
        None \<Rightarrow> None
      | Some (x, r) \<Rightarrow>
          (case strip ('','' @ line_start (Suc level)) r of
             Some r' \<Rightarrow>
               (case read_items n level r' of
                  None \<Rightarrow> None
                | Some (xs, r'') \<Rightarrow> Some (x # xs, r''))
           | None \<Rightarrow>
               (case strip (line_start level @ '']'') r of
                  None \<Rightarrow> None
                | Some r' \<Rightarrow> Some ([x], r'))))"
| "read_members 0 level s = None"
| "read_members (Suc n) level s =
     (case strip [CHR 0x22] s of
        None \<Rightarrow> None
      | Some s1 \<Rightarrow>
          (case read_string s1 of
             None \<Rightarrow> None
           | Some (k, s2) \<Rightarrow>
               (case strip '': '' s2 of
                  None \<Rightarrow> None
                | Some s3 \<Rightarrow>
                    (case read_value n (Suc level) s3 of
                       None \<Rightarrow> None
                     | Some (v, r) \<Rightarrow>
                         (case strip ('','' @ line_start (Suc level)) r of
                            Some r' \<Rightarrow>
                              (case read_members n level r' of
                                 None \<Rightarrow> None
                               | Some (kvs, r'') \<Rightarrow> Some ((k, v) # kvs, r''))
                          | None \<Rightarrow>
                              (case strip (line_start level @ ''}'') r of
                                 None \<Rightarrow> None
                               | Some r' \<Rightarrow> Some ([(k, v)], r')))))))"

text \<open>A whole document: one value and nothing after it.\<close>

definition read_json :: "string \<Rightarrow> pyval option" where
  "read_json t =
     (case read_value (length t) 0 t of
        None \<Rightarrow> None
      | Some (v, rest) \<Rightarrow> if rest = [] then Some v else None)"

text \<open>
  The texts that \<^verbatim>\<open>repr\<close> can give for a float: the three names, or a number that is not
  written as an integer. \<open>wf_json\<close> holds of a value all of whose floats carry such a text, as
  every value that \<^verbatim>\<open>json.loads\<close> produces does.
\<close>

definition float_text :: "string \<Rightarrow> bool" where
  "float_text r =
     (r = ''nan'' \<or> r = ''inf'' \<or> r = ''-inf'' \<or>
      (r \<noteq> [] \<and> list_all number_char r \<and> \<not> list_all is_digit r \<and>
       \<not> (hd r = CHR ''-'' \<and> list_all is_digit (tl r))))"

fun wf_json :: "pyval \<Rightarrow> bool" where
  "wf_json (PyFloat r) = float_text r"
| "wf_json (PyList xs) = list_all wf_json xs"
| "wf_json (PyDict kvs) = list_all (\<lambda>kv. wf_json (snd kv)) kvs"
| "wf_json _ = True"

text \<open>A count that is enough for the reader to read the rendering of a value.\<close>

fun fuel :: "pyval \<Rightarrow> nat" where
  "fuel (PyList xs) = Suc (sum_list (map (\<lambda>x. Suc (fuel x)) xs))"
| "fuel (PyDict kvs) = Suc (sum_list (map (\<lambda>kv. Suc (fuel (snd kv))) kvs))"
| "fuel _ = Suc 0"

section \<open>The world outside the tool\<close>

text \<open>
  An HTTP GET either fails below HTTP (no response at all) or yields a response with a
  status code and a body. \<open>body_json\<close> is what \<^verbatim>\<open>response.json()\<close> returns: the parsed
  body, or \<open>None\<close> when the body is not a JSON document and the method raises.
\<close>

record response =
  status_code :: nat
  body_json :: "pyval option"

datatype http_outcome = ConnectionFailed | Responded response

text \<open>
  The environment of one invocation: \<open>utc_clock n\<close> is the UTC date that the \<open>n\<close>-th
  reading of the clock returns, so two readings may differ;
  \<open>requests_reply\<close> answers the blocking client (\<^verbatim>\<open>requests.get\<close>) and \<open>httpx_reply\<close> the
  asynchronous one (\<^verbatim>\<open>httpx.AsyncClient.get\<close>), each as a function of the URL asked.
\<close>

record env =
  utc_clock :: "nat \<Rightarrow> date"
  requests_reply :: "string \<Rightarrow> http_outcome"
  httpx_reply :: "string \<Rightarrow> http_outcome"

text \<open>What the tool does to the world: it reads the clock and it issues requests.\<close>

datatype http_call = RequestsGet string | HttpxGet string

record world =
  clock_reads :: nat
  http_log :: "http_call list"

definition world0 :: world where
  "world0 = \<lparr>clock_reads = 0, http_log = []\<rparr>"

text \<open>\<^verbatim>\<open>datetime.now(tz=UTC).date()\<close>: one reading of the clock.\<close>

definition now_utc_date :: "env \<Rightarrow> world \<Rightarrow> date \<times> world" where
  "now_utc_date e w = (utc_clock e (clock_reads w), w\<lparr>clock_reads := Suc (clock_reads w)\<rparr>)"

text \<open>\<^verbatim>\<open>requests.get(url, headers=...)\<close>.\<close>

definition requests_get :: "env \<Rightarrow> string \<Rightarrow> world \<Rightarrow> (error + response) \<times> world" where
  "requests_get e url w =
     (case requests_reply e url of
        ConnectionFailed \<Rightarrow> Inl RequestsConnectionError
      | Responded r \<Rightarrow> Inr r,
      w\<lparr>http_log := http_log w @ [RequestsGet url]\<rparr>)"

text \<open>\<^verbatim>\<open>await client.get(url, headers=...)\<close> on an \<^verbatim>\<open>httpx.AsyncClient\<close>.\<close>

definition httpx_get :: "env \<Rightarrow> string \<Rightarrow> world \<Rightarrow> (error + response) \<times> world" where
  "httpx_get e url w =
     (case httpx_reply e url of
        ConnectionFailed \<Rightarrow> Inl HttpxTransportError
      | Responded r \<Rightarrow> Inr r,
      w\<lparr>http_log := http_log w @ [HttpxGet url]\<rparr>)"

text \<open>
  \<^verbatim>\<open>requests.Response.ok\<close> is false exactly for the 4xx and 5xx codes, and
  \<^verbatim>\<open>requests.Response.raise_for_status\<close> raises \<^verbatim>\<open>HTTPError\<close> exactly then.
\<close>

definition requests_ok :: "nat \<Rightarrow> bool" where
  "requests_ok s = (\<not> (400 \<le> s \<and> s < 600))"

definition requests_raise_for_status :: "response \<Rightarrow> error + unit" where
  "requests_raise_for_status r =
     (if requests_ok (status_code r) then Inr () else Inl (RequestsHTTPError (status_code r)))"

text \<open>
  \<^verbatim>\<open>httpx.Response.is_success\<close> is true exactly for the 2xx codes, and
  \<^verbatim>\<open>httpx.Response.raise_for_status\<close> raises \<^verbatim>\<open>HTTPStatusError\<close> for every other code.
\<close>

definition httpx_is_success :: "nat \<Rightarrow> bool" where
  "httpx_is_success s = (200 \<le> s \<and> s \<le> 299)"

definition httpx_raise_for_status :: "response \<Rightarrow> error + unit" where
  "httpx_raise_for_status r =
     (if httpx_is_success (status_code r) then Inr ()
      else Inl (HttpxHTTPStatusError (status_code r)))"

text \<open>\<^verbatim>\<open>response.json()\<close>, for either client.\<close>

definition response_json :: "response \<Rightarrow> error + pyval" where
  "response_json r = (case body_json r of None \<Rightarrow> Inl JSONDecodeError | Some v \<Rightarrow> Inr v)"

section \<open>The tool\<close>

text \<open>
  The request object, \<^verbatim>\<open>OpenMeteoToolInput\<close>. Its \<^verbatim>\<open>temperature_unit\<close> is a string that
  validation restricts to \<^verbatim>\<open>celsius\<close> and \<^verbatim>\<open>fahrenheit\<close>; the tool copies it and never
  inspects it, so the record takes any string.
\<close>

record OpenMeteoToolInput =
  location_name :: string
  country :: "string option"
  start_date :: "string option"
  end_date :: "string option"
  temperature_unit :: string

definition GEOCODING_URL :: string where
  "GEOCODING_URL = ''https://geocoding-api.open-meteo.com/v1/search''"

definition FORECAST_URL :: string where
  "FORECAST_URL = ''https://api.open-meteo.com/v1/forecast''"

text \<open>
  \<^verbatim>\<open>_geocode\<close>, lines 30 to 32: the query parameters, in the order the dict holds them.
  \<^verbatim>\<open>if country:\<close> is false for \<^verbatim>\<open>None\<close> and for the empty string.
\<close>

definition geocode_params :: "string \<Rightarrow> string option \<Rightarrow> (string \<times> pyval) list" where
  "geocode_params name ctry =
     (let params = [(''format'', PyStr ''json''), (''count'', PyInt 1),
                    (''name'', PyStr name)]
      in case ctry of
           None \<Rightarrow> params
         | Some c \<Rightarrow> if c \<noteq> [] then AList.update ''country'' (PyStr c) params else params)"

text \<open>\<^verbatim>\<open>_geocode\<close>, lines 33 to 35: the URL asked.\<close>

definition geocode_url :: "string \<Rightarrow> string option \<Rightarrow> string" where
  "geocode_url name ctry =
     GEOCODING_URL @ ''?'' @ urlencode (geocode_params name ctry)"

text \<open>\<^verbatim>\<open>_geocode\<close>, lines 38 to 42: what is done with the response.\<close>

definition geocode_result :: "string \<Rightarrow> response \<Rightarrow> error + pyval" where
  "geocode_result name response =
     (case requests_raise_for_status response of
        Inl e \<Rightarrow> Inl e
      | Inr _ \<Rightarrow>
          (case response_json response of
             Inl e \<Rightarrow> Inl e
           | Inr body \<Rightarrow>
               (case get_results body of
                  Inl e \<Rightarrow> Inl e
                | Inr results \<Rightarrow>
                    if \<not> truthy results
                    then Inl (ValueError
                      (''Location '' @ [CHR 0x27] @ name @ [CHR 0x27] @ '' not found.''))
                    else subscript_0 results)))"

text \<open>\<^verbatim>\<open>_geocode(location_name, country)\<close>.\<close>

definition geocode :: "env \<Rightarrow> string \<Rightarrow> string option \<Rightarrow> world \<Rightarrow> (error + pyval) \<times> world" where
  "geocode e name ctry w =
     (case requests_get e (geocode_url name ctry) w of
        (Inl err, w1) \<Rightarrow> (Inl err, w1)
      | (Inr response, w1) \<Rightarrow> (geocode_result name response, w1))"

text \<open>
  The dict that \<^verbatim>\<open>_get_forecast_params\<close> returns, lines 47 to 56, for a clock reading
  \<open>current_date\<close>. The entries are evaluated in order, so a missing \<^verbatim>\<open>latitude\<close> is
  reported before a missing \<^verbatim>\<open>longitude\<close>.
\<close>

definition forecast_dict :: "date \<Rightarrow> OpenMeteoToolInput \<Rightarrow> pyval \<Rightarrow> error + (string \<times> pyval) list" where
  "forecast_dict current_date input geo =
     (case subscript_str geo ''latitude'' of
        Inl e \<Rightarrow> Inl e
      | Inr lat \<Rightarrow>
          (case subscript_str geo ''longitude'' of
             Inl e \<Rightarrow> Inl e
           | Inr lon \<Rightarrow>
               Inr [(''latitude'', lat),
                    (''longitude'', lon),
                    (''current'', PyStr ''temperature_2m,rain,relative_humidity_2m,wind_speed_10m''),
                    (''daily'', PyStr ''temperature_2m_max,temperature_2m_min,rain_sum''),
                    (''timezone'', PyStr ''UTC''),
                    (''start_date'', PyStr (opt_or (start_date input) (date_str current_date))),
                    (''end_date'', PyStr (opt_or (end_date input) (date_str current_date))),
                    (''temperature_unit'', PyStr (temperature_unit input))]))"

text \<open>\<^verbatim>\<open>_get_forecast_params(input, geocode)\<close>: line 46 reads the clock, once.\<close>

definition get_forecast_params ::
  "env \<Rightarrow> OpenMeteoToolInput \<Rightarrow> pyval \<Rightarrow> world \<Rightarrow> (error + (string \<times> pyval) list) \<times> world" where
  "get_forecast_params e input geo w =
     (case now_utc_date e w of
        (current_date, w1) \<Rightarrow> (forecast_dict current_date input geo, w1))"

text \<open>\<^verbatim>\<open>open_meteo_tool\<close>, lines 73 and 77: the URL asked of the forecast service.\<close>

definition forecast_url :: "(string \<times> pyval) list \<Rightarrow> string" where
  "forecast_url params = FORECAST_URL @ ''?'' @ urlencode params"

text \<open>\<^verbatim>\<open>open_meteo_tool\<close>, lines 80 and 81: what is done with the response.\<close>

definition forecast_result :: "response \<Rightarrow> error + string" where
  "forecast_result response =
     (case httpx_raise_for_status response of
        Inl e \<Rightarrow> Inl e
      | Inr _ \<Rightarrow>
          (case response_json response of
             Inl e \<Rightarrow> Inl e
           | Inr body \<Rightarrow> Inr (json_dumps_indent2 body)))"

text \<open>\<^verbatim>\<open>open_meteo_tool(input)\<close>.\<close>

definition open_meteo_tool :: "env \<Rightarrow> OpenMeteoToolInput \<Rightarrow> world \<Rightarrow> (error + string) \<times> world" where
  "open_meteo_tool e input w =
     (case geocode e (location_name input) (country input) w of
        (Inl err, w1) \<Rightarrow> (Inl err, w1)
      | (Inr geo, w1) \<Rightarrow>
          (case get_forecast_params e input geo w1 of
             (Inl err, w2) \<Rightarrow> (Inl err, w2)
           | (Inr params, w2) \<Rightarrow>
               (case httpx_get e (forecast_url params) w2 of
                  (Inl err, w3) \<Rightarrow> (Inl err, w3)
                | (Inr response, w3) \<Rightarrow> (forecast_result response, w3))))"

section \<open>Observations\<close>

text \<open>The two error kinds the specification names, read off the exceptions raised.\<close>

fun is_location_not_found :: "error \<Rightarrow> bool" where
  "is_location_not_found (ValueError msg) = True"
| "is_location_not_found _ = False"

fun is_transport_error :: "error \<Rightarrow> bool" where
  "is_transport_error RequestsConnectionError = True"
| "is_transport_error (RequestsHTTPError s) = True"
| "is_transport_error HttpxTransportError = True"
| "is_transport_error (HttpxHTTPStatusError s) = True"
| "is_transport_error _ = False"

fun call_url :: "http_call \<Rightarrow> string" where
  "call_url (RequestsGet u) = u"
| "call_url (HttpxGet u) = u"

text \<open>The requests of a log that went to the forecast endpoint.\<close>

definition forecast_calls :: "http_call list \<Rightarrow> http_call list" where
  "forecast_calls log = filter (\<lambda>c. prefix FORECAST_URL (call_url c)) log"

text \<open>The requests that one invocation adds to the log of a world \<open>w\<close>.\<close>

definition outgoing :: "env \<Rightarrow> OpenMeteoToolInput \<Rightarrow> world \<Rightarrow> http_call list" where
  "outgoing e input w = drop (length (http_log w)) (http_log (snd (open_meteo_tool e input w)))"

section \<open>Example runs\<close>

text \<open>
  A request for Berlin with only \<^verbatim>\<open>end_date\<close> given, the candidate and the two bodies of
  the specification's examples, and two clocks: one whose every reading falls on a later
  day than the one before, and one that stands still on another day.
\<close>

definition berlin_request :: OpenMeteoToolInput where
  "berlin_request =
     \<lparr>location_name = ''Berlin'', country = Some ''DE'', start_date = None,
      end_date = Some ''2024-02-01'', temperature_unit = ''fahrenheit''\<rparr>"

definition berlin_candidate :: pyval where
  "berlin_candidate =
     PyDict [(''latitude'', PyFloat ''52.52''), (''longitude'', PyFloat ''13.41'')]"

definition berlin_params :: "string \<Rightarrow> string \<Rightarrow> (string \<times> pyval) list" where
  "berlin_params s t =
     [(''latitude'', PyFloat ''52.52''),
      (''longitude'', PyFloat ''13.41''),
      (''current'', PyStr ''temperature_2m,rain,relative_humidity_2m,wind_speed_10m''),
      (''daily'', PyStr ''temperature_2m_max,temperature_2m_min,rain_sum''),
      (''timezone'', PyStr ''UTC''),
      (''start_date'', PyStr s),
      (''end_date'', PyStr t),
      (''temperature_unit'', PyStr ''fahrenheit'')]"

definition geocoding_found :: response where
  "geocoding_found =
     \<lparr>status_code = 200, body_json = Some (PyDict [(''results'', PyList [berlin_candidate])])\<rparr>"

definition geocoding_empty :: response where
  "geocoding_empty = \<lparr>status_code = 200, body_json = Some (PyDict [(''results'', PyList [])])\<rparr>"

definition geocoding_404 :: response where
  "geocoding_404 = \<lparr>status_code = 404, body_json = None\<rparr>"

definition forecast_body :: pyval where
  "forecast_body = PyDict [(''current'', PyDict [(''temperature_2m'', PyFloat ''5.0'')])]"

definition forecast_ok :: response where
  "forecast_ok = \<lparr>status_code = 200, body_json = Some forecast_body\<rparr>"

definition dated_request :: OpenMeteoToolInput where
  "dated_request = berlin_request\<lparr>start_date := Some ''2024-01-01''\<rparr>"

definition geocoding_no_longitude :: response where
  "geocoding_no_longitude =
     \<lparr>status_code = 200,
      body_json =
        Some (PyDict [(''results'', PyList [PyDict [(''latitude'', PyFloat ''52.52'')]])])\<rparr>"

definition geocoding_302 :: response where
  "geocoding_302 =
     \<lparr>status_code = 302, body_json = Some (PyDict [(''results'', PyList [berlin_candidate])])\<rparr>"

definition rolling_clock :: "nat \<Rightarrow> date" where
  "rolling_clock n = \<lparr>year = 2024, month = 1, day = 5 + n\<rparr>"

definition still_clock :: "nat \<Rightarrow> date" where
  "still_clock n = \<lparr>year = 2025, month = 6, day = 30\<rparr>"

definition example_env :: "(nat \<Rightarrow> date) \<Rightarrow> response \<Rightarrow> env" where
  "example_env clock geocoding =
     \<lparr>utc_clock = clock,
      requests_reply = (\<lambda>url. Responded geocoding),
      httpx_reply = (\<lambda>url. Responded forecast_ok)\<rparr>"

section \<open>Unfolding the steps\<close>

lemma geocode_unfold:
  "geocode e name ctry w =
     (case requests_reply e (geocode_url name ctry) of
        ConnectionFailed \<Rightarrow> Inl RequestsConnectionError
      | Responded r \<Rightarrow> geocode_result name r,
      w\<lparr>http_log := http_log w @ [RequestsGet (geocode_url name ctry)]\<rparr>)"
  by (simp add: geocode_def requests_get_def split: http_outcome.split sum.split)

lemma get_forecast_params_unfold:
  "get_forecast_params e input geo w =
     (forecast_dict (utc_clock e (clock_reads w)) input geo,
      w\<lparr>clock_reads := Suc (clock_reads w)\<rparr>)"
  by (simp add: get_forecast_params_def now_utc_date_def)

lemma open_meteo_tool_unfold:
  "open_meteo_tool e input w =
     (case (case requests_reply e (geocode_url (location_name input) (country input)) of
              ConnectionFailed \<Rightarrow> Inl RequestsConnectionError
            | Responded r \<Rightarrow> geocode_result (location_name input) r) of
        Inl err \<Rightarrow>
          (Inl err,
           w\<lparr>http_log := http_log w @
                [RequestsGet (geocode_url (location_name input) (country input))]\<rparr>)
      | Inr geo \<Rightarrow>
          (case forecast_dict (utc_clock e (clock_reads w)) input geo of
             Inl err \<Rightarrow>
               (Inl err,
                w\<lparr>clock_reads := Suc (clock_reads w),
                  http_log := http_log w @
                    [RequestsGet (geocode_url (location_name input) (country input))]\<rparr>)
           | Inr params \<Rightarrow>
               (case httpx_reply e (forecast_url params) of
                  ConnectionFailed \<Rightarrow> Inl HttpxTransportError
                | Responded r \<Rightarrow> forecast_result r,
                w\<lparr>clock_reads := Suc (clock_reads w),
                  http_log := http_log w @
                    [RequestsGet (geocode_url (location_name input) (country input)),
                     HttpxGet (forecast_url params)]\<rparr>)))"
  by (simp add: open_meteo_tool_def geocode_unfold get_forecast_params_unfold httpx_get_def
      split: sum.split http_outcome.split)

lemma geocode_call_not_forecast:
  "forecast_calls (log @ [RequestsGet (geocode_url name ctry)]) = forecast_calls log"
  by (simp add: forecast_calls_def geocode_url_def GEOCODING_URL_def FORECAST_URL_def)

lemma forecast_dict_Inr:
  assumes "forecast_dict d input geo = Inr params"
  obtains lat lon where "subscript_str geo ''latitude'' = Inr lat"
    and "subscript_str geo ''longitude'' = Inr lon"
    and "params =
           [(''latitude'', lat),
            (''longitude'', lon),
            (''current'', PyStr ''temperature_2m,rain,relative_humidity_2m,wind_speed_10m''),
            (''daily'', PyStr ''temperature_2m_max,temperature_2m_min,rain_sum''),
            (''timezone'', PyStr ''UTC''),
            (''start_date'', PyStr (opt_or (start_date input) (date_str d))),
            (''end_date'', PyStr (opt_or (end_date input) (date_str d))),
            (''temperature_unit'', PyStr (temperature_unit input))]"
  using assms by (auto simp: forecast_dict_def split: sum.splits)

lemma date_str_rolling_clock:
  "date_str (rolling_clock 0) = ''2024-01-05''" "date_str (rolling_clock 1) = ''2024-01-06''"
  by code_simp+

lemma date_str_still_clock: "date_str (still_clock n) = ''2025-06-30''"
  unfolding still_clock_def by code_simp

lemma example_env_sel:
  "utc_clock (example_env clock geocoding) = clock"
  "requests_reply (example_env clock geocoding) url = Responded geocoding"
  "httpx_reply (example_env clock geocoding) url = Responded forecast_ok"
  by (simp_all add: example_env_def)

lemma berlin_forecast_dict:
  "forecast_dict d berlin_request berlin_candidate = Inr (berlin_params (date_str d) ''2024-02-01'')"
  by (simp add: forecast_dict_def berlin_request_def berlin_candidate_def berlin_params_def)

section \<open>Defaulted dates\<close>

text \<open>
  C1. Whenever the forecast parameters are built for a request whose \<^verbatim>\<open>start_date\<close> is
  omitted, their \<^verbatim>\<open>start_date\<close> is the text of the UTC date that the clock returned
  during the call; the same holds for \<^verbatim>\<open>end_date\<close>. Each of the two is decided by its own
  field alone, so a request that gives only one date gets today's date for the other.
\<close>

theorem default_dates_are_today:
  assumes "get_forecast_params e input geo w = (Inr params, w')"
  shows "(start_date input = None \<longrightarrow>
            map_of params ''start_date'' =
              Some (PyStr (date_str (utc_clock e (clock_reads w))))) \<and>
         (end_date input = None \<longrightarrow>
            map_of params ''end_date'' =
              Some (PyStr (date_str (utc_clock e (clock_reads w)))))"
proof -
  from assms have "forecast_dict (utc_clock e (clock_reads w)) input geo = Inr params"
    by (simp add: get_forecast_params_unfold)
  then show ?thesis
    by (elim forecast_dict_Inr) simp
qed

theorem default_dates_are_today_witness:
  "start_date berlin_request = None \<and>
   end_date berlin_request = Some ''2024-02-01'' \<and>
   get_forecast_params (example_env rolling_clock geocoding_found) berlin_request
       berlin_candidate world0 =
     (Inr (berlin_params ''2024-01-05'' ''2024-02-01''), world0\<lparr>clock_reads := 1\<rparr>) \<and>
   map_of (berlin_params ''2024-01-05'' ''2024-02-01'') ''start_date'' =
     Some (PyStr ''2024-01-05'') \<and>
   end_date (berlin_request\<lparr>start_date := Some ''2024-01-01'', end_date := None\<rparr>) = None \<and>
   get_forecast_params (example_env rolling_clock geocoding_found)
       (berlin_request\<lparr>start_date := Some ''2024-01-01'', end_date := None\<rparr>)
       berlin_candidate world0 =
     (Inr (berlin_params ''2024-01-01'' ''2024-01-05''), world0\<lparr>clock_reads := 1\<rparr>) \<and>
   map_of (berlin_params ''2024-01-01'' ''2024-01-05'') ''end_date'' =
     Some (PyStr ''2024-01-05'')"
proof -
  have run1: "get_forecast_params (example_env rolling_clock geocoding_found) berlin_request
       berlin_candidate world0 =
     (Inr (berlin_params ''2024-01-05'' ''2024-02-01''), world0\<lparr>clock_reads := 1\<rparr>)"
    by (simp add: get_forecast_params_unfold example_env_sel berlin_forecast_dict
        date_str_rolling_clock world0_def)
  have run2: "get_forecast_params (example_env rolling_clock geocoding_found)
       (berlin_request\<lparr>start_date := Some ''2024-01-01'', end_date := None\<rparr>)
       berlin_candidate world0 =
     (Inr (berlin_params ''2024-01-01'' ''2024-01-05''), world0\<lparr>clock_reads := 1\<rparr>)"
    by (simp add: get_forecast_params_unfold example_env_sel date_str_rolling_clock world0_def
        forecast_dict_def berlin_request_def berlin_candidate_def berlin_params_def)
  have none1: "start_date berlin_request = None" "end_date berlin_request = Some ''2024-02-01''"
    by (simp_all add: berlin_request_def)
  from default_dates_are_today [OF run1] default_dates_are_today [OF run2] none1 run1 run2
  show ?thesis
    by (simp add: example_env_sel world0_def date_str_rolling_clock)
qed

lemma quote_plus_literals:
  "quote_plus ''format'' = ''format''" "quote_plus ''json'' = ''json''"
  "quote_plus ''count'' = ''count''" "quote_plus ''name'' = ''name''"
  "quote_plus ''country'' = ''country''" "quote_plus (int_dec 1) = ''1''"
  "quote_plus ''Berlin'' = ''Berlin''" "quote_plus ''DE'' = ''DE''"
  by code_simp+

lemma only_geocode_call:
  "forecast_calls [] = []" "forecast_calls [RequestsGet (geocode_url name ctry)] = []"
  using geocode_call_not_forecast [of "[]" name ctry] by (simp_all add: forecast_calls_def)

section \<open>The geocoding query\<close>

text \<open>
  C2, as amended. Every geocoding query starts with \<^verbatim>\<open>format=json\<close>, \<^verbatim>\<open>count=1\<close> and
  \<^verbatim>\<open>name\<close> set to the location name. A request that gives a non-empty country gets a
  fourth parameter \<^verbatim>\<open>country\<close> with exactly that value; a request that omits the country
  gets the three parameters and no \<^verbatim>\<open>country\<close> key. The request that \<^verbatim>\<open>_geocode\<close> sends
  is a GET of the geocoding endpoint followed by \<^verbatim>\<open>?\<close> and these parameters URL-encoded.
\<close>

theorem geocode_query_parameters:
  "take 3 (geocode_params name ctry) =
     [(''format'', PyStr ''json''), (''count'', PyInt 1), (''name'', PyStr name)] \<and>
   (c \<noteq> [] \<longrightarrow>
      geocode_params name (Some c) =
        [(''format'', PyStr ''json''), (''count'', PyInt 1), (''name'', PyStr name),
         (''country'', PyStr c)] \<and>
      urlencode (geocode_params name (Some c)) =
        ''format=json&count=1&name='' @ quote_plus name @ ''&country='' @ quote_plus c) \<and>
   geocode_params name None =
     [(''format'', PyStr ''json''), (''count'', PyInt 1), (''name'', PyStr name)] \<and>
   ''country'' \<notin> fst ` set (geocode_params name None) \<and>
   urlencode (geocode_params name None) = ''format=json&count=1&name='' @ quote_plus name \<and>
   http_log (snd (geocode e name ctry w)) =
     http_log w @ [RequestsGet (GEOCODING_URL @ ''?'' @ urlencode (geocode_params name ctry))]"
  by (cases ctry)
    (simp_all add: geocode_params_def Let_def geocode_unfold geocode_url_def urlencode_def
      quote_plus_literals)

theorem geocode_query_parameters_witness:
  "''DE'' \<noteq> [] \<and>
   geocode_params ''Berlin'' (Some ''DE'') =
     [(''format'', PyStr ''json''), (''count'', PyInt 1), (''name'', PyStr ''Berlin''),
      (''country'', PyStr ''DE'')] \<and>
   urlencode (geocode_params ''Berlin'' (Some ''DE'')) =
     ''format=json&count=1&name=Berlin&country=DE''"
proof -
  note q = geocode_query_parameters [where name = "''Berlin''" and c = "''DE''"
      and ctry = "Some ''DE''" and e = "example_env rolling_clock geocoding_found" and w = world0]
  from q have params: "geocode_params ''Berlin'' (Some ''DE'') =
     [(''format'', PyStr ''json''), (''count'', PyInt 1), (''name'', PyStr ''Berlin''),
      (''country'', PyStr ''DE'')]"
    by simp
  from q have query: "urlencode (geocode_params ''Berlin'' (Some ''DE'')) =
     ''format=json&count=1&name='' @ quote_plus ''Berlin'' @ ''&country='' @ quote_plus ''DE''"
    by auto
  from params query show ?thesis
    by (simp add: quote_plus_literals)
qed

text \<open>
  C2 as it was stated fails for a request that supplies the empty string as its country:
  line 31 tests the truth value of \<^verbatim>\<open>country\<close>, the empty string is false, and the query
  carries no \<^verbatim>\<open>country\<close> parameter although one was supplied.
\<close>

theorem empty_country_is_dropped:
  "country (berlin_request\<lparr>country := Some ''''\<rparr>) = Some '''' \<and>
   map_of (geocode_params ''Berlin'' (Some '''')) ''country'' \<noteq> Some (PyStr '''') \<and>
   geocode_url ''Berlin'' (Some '''') =
     ''https://geocoding-api.open-meteo.com/v1/search?format=json&count=1&name=Berlin''"
  by code_simp

section \<open>Failures of the geocoding step\<close>

text \<open>
  C3. When the geocoding request is answered with a status that \<^verbatim>\<open>raise_for_status\<close>
  accepts and a JSON object whose \<^verbatim>\<open>results\<close> is the empty list, the tool raises
  \<^verbatim>\<open>ValueError\<close> with the message \<^verbatim>\<open>Location '<location_name>' not found.\<close>, which
  contains the location name; this is the location-not-found kind and not a transport
  error; the only request sent is the geocoding one, so the forecast endpoint is not called.
\<close>

theorem empty_results_location_not_found:
  assumes reply: "requests_reply e (geocode_url (location_name input) (country input)) = Responded r"
    and ok: "requests_ok (status_code r)"
    and body: "body_json r = Some (PyDict kvs)"
    and empty: "map_of kvs ''results'' = Some (PyList [])"
  shows "open_meteo_tool e input w =
           (Inl (ValueError (''Location '' @ [CHR 0x27] @ location_name input @ [CHR 0x27] @
                             '' not found.'')),
            w\<lparr>http_log := http_log w @
                 [RequestsGet (geocode_url (location_name input) (country input))]\<rparr>) \<and>
         sublist (location_name input)
           (''Location '' @ [CHR 0x27] @ location_name input @ [CHR 0x27] @ '' not found.'') \<and>
         is_location_not_found
           (ValueError (''Location '' @ [CHR 0x27] @ location_name input @ [CHR 0x27] @
                        '' not found.'')) \<and>
         \<not> is_transport_error
           (ValueError (''Location '' @ [CHR 0x27] @ location_name input @ [CHR 0x27] @
                        '' not found.'')) \<and>
         forecast_calls (http_log (snd (open_meteo_tool e input w))) = forecast_calls (http_log w)"
proof -
  have res: "geocode_result (location_name input) r =
      Inl (ValueError (''Location '' @ [CHR 0x27] @ location_name input @ [CHR 0x27] @
                             '' not found.''))"
    using ok body empty
    by (simp add: geocode_result_def requests_raise_for_status_def response_json_def)
  have run: "open_meteo_tool e input w =
           (Inl (ValueError (''Location '' @ [CHR 0x27] @ location_name input @ [CHR 0x27] @
                             '' not found.'')),
            w\<lparr>http_log := http_log w @
                 [RequestsGet (geocode_url (location_name input) (country input))]\<rparr>)"
    by (simp add: open_meteo_tool_def geocode_unfold reply res)
  have sub: "sublist (location_name input)
           (''Location '' @ [CHR 0x27] @ location_name input @ [CHR 0x27] @ '' not found.'')"
  proof -
    have "sublist (location_name input)
      ((''Location '' @ [CHR 0x27]) @ location_name input @ ([CHR 0x27] @ '' not found.''))"
      by (rule sublist_appendI)
    then show ?thesis by simp
  qed
  show ?thesis
    unfolding run using sub by (simp add: geocode_call_not_forecast)
qed

theorem empty_results_location_not_found_witness:
  "requests_ok (status_code geocoding_empty) \<and>
   body_json geocoding_empty = Some (PyDict [(''results'', PyList [])]) \<and>
   open_meteo_tool (example_env rolling_clock geocoding_empty) berlin_request world0 =
     (Inl (ValueError (''Location '' @ [CHR 0x27] @ ''Berlin'' @ [CHR 0x27] @ '' not found.'')),
      \<lparr>clock_reads = 0, http_log = [RequestsGet (geocode_url ''Berlin'' (Some ''DE''))]\<rparr>) \<and>
   forecast_calls
     (http_log (snd (open_meteo_tool (example_env rolling_clock geocoding_empty) berlin_request
        world0))) = []"
proof -
  have ok: "requests_ok (status_code geocoding_empty)"
    by (simp add: geocoding_empty_def requests_ok_def)
  have body: "body_json geocoding_empty = Some (PyDict [(''results'', PyList [])])"
    by (simp add: geocoding_empty_def)
  have empty: "map_of [(''results'', PyList [])] ''results'' = Some (PyList [])"
    by simp
  from empty_results_location_not_found [OF example_env_sel(2) ok body empty,
      of rolling_clock berlin_request world0] ok body
  show ?thesis
    by (simp add: berlin_request_def world0_def only_geocode_call)
qed

text \<open>
  C4, as amended. When the geocoding request is answered with a 4xx or 5xx status, such
  as 404 (the codes for which \<^verbatim>\<open>Response.ok\<close> of the \<^verbatim>\<open>requests\<close> client is false), the
  tool raises the \<^verbatim>\<open>HTTPError\<close> of \<^verbatim>\<open>raise_for_status\<close>, a transport error and not
  location-not-found; the only request sent is the geocoding one and the clock is never
  read, so neither the parameter building nor the forecast request ran.
\<close>

theorem geocode_status_error_short_circuits:
  assumes reply: "requests_reply e (geocode_url (location_name input) (country input)) = Responded r"
    and bad: "\<not> requests_ok (status_code r)"
  shows "open_meteo_tool e input w =
           (Inl (RequestsHTTPError (status_code r)),
            w\<lparr>http_log := http_log w @
                 [RequestsGet (geocode_url (location_name input) (country input))]\<rparr>) \<and>
         is_transport_error (RequestsHTTPError (status_code r)) \<and>
         \<not> is_location_not_found (RequestsHTTPError (status_code r)) \<and>
         forecast_calls (http_log (snd (open_meteo_tool e input w))) = forecast_calls (http_log w) \<and>
         clock_reads (snd (open_meteo_tool e input w)) = clock_reads w"
proof -
  have res: "geocode_result (location_name input) r = Inl (RequestsHTTPError (status_code r))"
    using bad by (simp add: geocode_result_def requests_raise_for_status_def)
  have run: "open_meteo_tool e input w =
           (Inl (RequestsHTTPError (status_code r)),
            w\<lparr>http_log := http_log w @
                 [RequestsGet (geocode_url (location_name input) (country input))]\<rparr>)"
    by (simp add: open_meteo_tool_def geocode_unfold reply res)
  show ?thesis
    unfolding run by (simp add: geocode_call_not_forecast)
qed

theorem geocode_status_error_short_circuits_witness:
  "\<not> requests_ok (status_code geocoding_404) \<and>
   open_meteo_tool (example_env rolling_clock geocoding_404) berlin_request world0 =
     (Inl (RequestsHTTPError 404),
      \<lparr>clock_reads = 0, http_log = [RequestsGet (geocode_url ''Berlin'' (Some ''DE''))]\<rparr>) \<and>
   forecast_calls
     (http_log (snd (open_meteo_tool (example_env rolling_clock geocoding_404) berlin_request
        world0))) = []"
proof -
  have bad: "\<not> requests_ok (status_code geocoding_404)"
    by (simp add: geocoding_404_def requests_ok_def)
  from geocode_status_error_short_circuits [OF example_env_sel(2) bad,
      of rolling_clock berlin_request world0] bad
  show ?thesis
    by (simp add: berlin_request_def world0_def only_geocode_call geocoding_404_def)
qed

text \<open>
  C4 as it was stated, for every status that is not a success, fails at a status outside
  2xx that \<^verbatim>\<open>raise_for_status\<close> of the \<^verbatim>\<open>requests\<close> client lets pass: a geocoding reply
  with status 302 (a redirect the client did not follow) and a candidate in its body. Line
  38 does not raise, the candidate is returned, and the forecast endpoint is called.
\<close>

theorem unfollowed_redirect_reaches_forecast:
  "\<not> (200 \<le> status_code geocoding_302 \<and> status_code geocoding_302 \<le> 299) \<and>
   fst (open_meteo_tool (example_env rolling_clock geocoding_302) berlin_request world0) =
     Inr (json_dumps_indent2 forecast_body) \<and>
   forecast_calls
     (http_log (snd (open_meteo_tool (example_env rolling_clock geocoding_302) berlin_request
        world0))) =
     [HttpxGet (forecast_url (berlin_params ''2024-01-05'' ''2024-02-01''))]"
proof -
  have sel: "location_name berlin_request = ''Berlin''" "country berlin_request = Some ''DE''"
    by (simp_all add: berlin_request_def)
  have geo: "geocode_result name geocoding_302 = Inr berlin_candidate" for name
    by (simp add: geocode_result_def geocoding_302_def requests_raise_for_status_def
        requests_ok_def response_json_def)
  have res: "forecast_result forecast_ok = Inr (json_dumps_indent2 forecast_body)"
    by (simp add: forecast_result_def forecast_ok_def httpx_raise_for_status_def
        httpx_is_success_def response_json_def)
  have run: "open_meteo_tool (example_env rolling_clock geocoding_302) berlin_request world0 =
     (Inr (json_dumps_indent2 forecast_body),
      \<lparr>clock_reads = 1,
       http_log = [RequestsGet (geocode_url ''Berlin'' (Some ''DE'')),
                   HttpxGet (forecast_url (berlin_params ''2024-01-05'' ''2024-02-01''))]\<rparr>)"
    by (simp add: open_meteo_tool_unfold example_env_sel sel geo berlin_forecast_dict res
        world0_def date_str_rolling_clock)
  have calls: "forecast_calls
      [RequestsGet (geocode_url ''Berlin'' (Some ''DE'')),
       HttpxGet (forecast_url (berlin_params ''2024-01-05'' ''2024-02-01''))] =
      [HttpxGet (forecast_url (berlin_params ''2024-01-05'' ''2024-02-01''))]"
    by (simp add: forecast_calls_def forecast_url_def geocode_url_def GEOCODING_URL_def
        FORECAST_URL_def)
  show ?thesis
    unfolding run by (simp add: calls geocoding_302_def)
qed

section \<open>The forecast parameters\<close>

lemma quote_plus_temperature_unit:
  "quote_plus ''temperature_unit'' = ''temperature_unit''"
  "quote_plus ''fahrenheit'' = ''fahrenheit''"
  by code_simp+

lemma urlencode_last:
  "urlencode (kvs @ [(k, v)]) =
     (if kvs = [] then [] else urlencode kvs @ ''&'') @ quote_plus k @ ''='' @ quote_plus (py_str v)"
proof -
  have j: "join s (xs @ [x]) = (if xs = [] then [] else join s xs @ s) @ x" for s xs x
    by (induction s xs rule: join.induct) auto
  show ?thesis
    unfolding urlencode_def by (simp add: j)
qed

text \<open>
  C5. Whenever the forecast parameters are built, looking up \<^verbatim>\<open>latitude\<close> and
  \<^verbatim>\<open>longitude\<close> in them gives what the same lookup gives in the geocoding candidate;
  \<^verbatim>\<open>current\<close>, \<^verbatim>\<open>daily\<close> and \<^verbatim>\<open>timezone\<close> are the three fixed texts;
  \<^verbatim>\<open>temperature_unit\<close> is the request's value unchanged; the keys are the eight of the
  dict, in its order; and the forecast URL ends with \<^verbatim>\<open>&temperature_unit=\<close> followed by
  the URL-encoded unit, which for \<^verbatim>\<open>fahrenheit\<close> is \<^verbatim>\<open>temperature_unit=fahrenheit\<close>.
\<close>

theorem forecast_parameter_set:
  assumes "get_forecast_params e input geo w = (Inr params, w')"
  shows "subscript_str (PyDict params) ''latitude'' = subscript_str geo ''latitude'' \<and>
         subscript_str (PyDict params) ''longitude'' = subscript_str geo ''longitude'' \<and>
         map_of params ''current'' =
           Some (PyStr ''temperature_2m,rain,relative_humidity_2m,wind_speed_10m'') \<and>
         map_of params ''daily'' = Some (PyStr ''temperature_2m_max,temperature_2m_min,rain_sum'') \<and>
         map_of params ''timezone'' = Some (PyStr ''UTC'') \<and>
         map_of params ''temperature_unit'' = Some (PyStr (temperature_unit input)) \<and>
         map fst params =
           [''latitude'', ''longitude'', ''current'', ''daily'', ''timezone'', ''start_date'',
            ''end_date'', ''temperature_unit''] \<and>
         suffix (''&temperature_unit='' @ quote_plus (temperature_unit input)) (forecast_url params)"
proof -
  from assms have "forecast_dict (utc_clock e (clock_reads w)) input geo = Inr params"
    by (simp add: get_forecast_params_unfold)
  then obtain lat lon where lat: "subscript_str geo ''latitude'' = Inr lat"
    and lon: "subscript_str geo ''longitude'' = Inr lon"
    and params: "params =
           [(''latitude'', lat),
            (''longitude'', lon),
            (''current'', PyStr ''temperature_2m,rain,relative_humidity_2m,wind_speed_10m''),
            (''daily'', PyStr ''temperature_2m_max,temperature_2m_min,rain_sum''),
            (''timezone'', PyStr ''UTC''),
            (''start_date'', PyStr (opt_or (start_date input) (date_str (utc_clock e (clock_reads w))))),
            (''end_date'', PyStr (opt_or (end_date input) (date_str (utc_clock e (clock_reads w))))),
            (''temperature_unit'', PyStr (temperature_unit input))]"
    by (rule forecast_dict_Inr)
  define front where "front = butlast params"
  have split: "params = front @ [(''temperature_unit'', PyStr (temperature_unit input))]"
    and front: "front \<noteq> []"
    unfolding front_def params by simp_all
  have "urlencode params =
      urlencode front @ ''&temperature_unit='' @ quote_plus (temperature_unit input)"
    unfolding split by (simp add: urlencode_last front quote_plus_temperature_unit)
  then have "forecast_url params =
      (FORECAST_URL @ ''?'' @ urlencode front) @
      ''&temperature_unit='' @ quote_plus (temperature_unit input)"
    by (simp add: forecast_url_def)
  then have "suffix (''&temperature_unit='' @ quote_plus (temperature_unit input))
      (forecast_url params)"
    by (simp only: suffix_def) blast
  with lat lon show ?thesis
    by (simp add: params)
qed

theorem forecast_parameter_set_witness:
  "get_forecast_params (example_env rolling_clock geocoding_found) berlin_request
       berlin_candidate world0 =
     (Inr (berlin_params ''2024-01-05'' ''2024-02-01''), world0\<lparr>clock_reads := 1\<rparr>) \<and>
   temperature_unit berlin_request = ''fahrenheit'' \<and>
   subscript_str (PyDict (berlin_params ''2024-01-05'' ''2024-02-01'')) ''latitude'' =
     Inr (PyFloat ''52.52'') \<and>
   subscript_str (PyDict (berlin_params ''2024-01-05'' ''2024-02-01'')) ''longitude'' =
     Inr (PyFloat ''13.41'') \<and>
   map_of (berlin_params ''2024-01-05'' ''2024-02-01'') ''temperature_unit'' =
     Some (PyStr ''fahrenheit'') \<and>
   suffix ''&temperature_unit=fahrenheit''
     (forecast_url (berlin_params ''2024-01-05'' ''2024-02-01''))"
proof -
  have run: "get_forecast_params (example_env rolling_clock geocoding_found) berlin_request
       berlin_candidate world0 =
     (Inr (berlin_params ''2024-01-05'' ''2024-02-01''), world0\<lparr>clock_reads := 1\<rparr>)"
    by (simp add: get_forecast_params_unfold example_env_sel berlin_forecast_dict
        date_str_rolling_clock world0_def)
  have unit: "temperature_unit berlin_request = ''fahrenheit''"
    by (simp add: berlin_request_def)
  from forecast_parameter_set [OF run] run unit show ?thesis
    by (simp add: berlin_candidate_def quote_plus_temperature_unit)
qed

section \<open>The reader inverts the rendering\<close>

lemma hex_val_digit_lower: "n < 16 \<Longrightarrow> hex_val (digit_lower n) = Some n"
proof -
  have "\<forall>k \<in> set [0..<16]. hex_val (digit_lower k) = Some k"
    by code_simp
  moreover assume "n < 16"
  ultimately show ?thesis
    by simp
qed

lemma char_of_hex: "char_of (16 * (of_char c div 16) + of_char c mod 16 :: nat) = c"
  by simp

lemma read_escape_char:
  "read_string (escape_char c @ s) =
     (case read_string s of None \<Rightarrow> None | Some (t, r) \<Rightarrow> Some (c # t, r))"
proof -
  have lt: "(of_char c :: nat) div 16 < 16" "(of_char c :: nat) mod 16 < 16"
    using nat_of_char_less_256 [of c] by arith+
  show ?thesis
    unfolding escape_char_def
    by (auto simp: read_string.simps hex_val_digit_lower lt char_of_hex escaped_by_code_def
        split: option.split)
qed

lemma read_string_encode:
  "read_string (concat (map escape_char s) @ CHR 0x22 # rest) = Some (s, rest)"
  by (induction s) (simp_all add: read_string.simps read_escape_char)

lemma strip_append [simp]: "strip p (p @ r) = Some r"
  by (simp add: strip_def)

lemma digit_lower_decimal:
  "k < 10 \<Longrightarrow> is_digit (digit_lower k) \<and> of_char (digit_lower k) - 48 = k"
proof -
  have "\<forall>d \<in> set [0..<10]. is_digit (digit_lower d) \<and> of_char (digit_lower d) - 48 = d"
    by code_simp
  moreover assume "k < 10"
  ultimately show ?thesis
    by simp
qed

lemma dec_val_snoc: "dec_val (ds @ [c]) = 10 * dec_val ds + (of_char c - 48)"
  by (simp add: dec_val_def)

lemma nat_dec_digits: "list_all is_digit (nat_dec n) \<and> nat_dec n \<noteq> [] \<and> dec_val (nat_dec n) = n"
proof (induction n rule: nat_dec.induct)
  case (1 n)
  show ?case
  proof (cases "n < 10")
    case True
    then show ?thesis
      using digit_lower_decimal [of n] by (simp add: nat_dec.simps [of n] dec_val_def)
  next
    case False
    with 1 have ih: "list_all is_digit (nat_dec (n div 10))" "dec_val (nat_dec (n div 10)) = n div 10"
      by simp_all
    have "n mod 10 < 10" by simp
    from digit_lower_decimal [OF this] ih False show ?thesis
      by (simp add: nat_dec.simps [of n] dec_val_snoc)
  qed
qed

lemma nat_dec_leading: "hd (nat_dec n) = CHR ''0'' \<Longrightarrow> n = 0"
proof (induction n rule: nat_dec.induct)
  case (1 n)
  show ?case
  proof (cases "n < 10")
    case True
    have "\<forall>d \<in> set [0..<10]. digit_lower d = CHR ''0'' \<longrightarrow> d = 0"
      by code_simp
    with True 1(2) show ?thesis
      by (simp add: nat_dec.simps [of n])
  next
    case False
    have "nat_dec (n div 10) \<noteq> []"
      using nat_dec_digits [of "n div 10"] by simp
    with False 1(2) have "hd (nat_dec (n div 10)) = CHR ''0''"
      by (simp add: nat_dec.simps [of n])
    with 1(1) False show ?thesis
      by simp
  qed
qed

lemma is_digit_number_char: "is_digit c \<Longrightarrow> number_char c"
  by (auto simp: is_digit_def number_char_def)

lemma number_token:
  assumes "list_all number_char tok" "number_end rest"
  shows "takeWhile number_char (tok @ rest) = tok" "dropWhile number_char (tok @ rest) = rest"
proof -
  from assms(2) have r: "takeWhile number_char rest = []" "dropWhile number_char rest = rest"
    by (cases rest; simp add: number_end_def)+
  from assms(1) have all: "\<And>x. x \<in> set tok \<Longrightarrow> number_char x"
    by (simp add: list_all_iff)
  show "takeWhile number_char (tok @ rest) = tok"
    using all r by (simp add: takeWhile_append2)
  show "dropWhile number_char (tok @ rest) = rest"
    using all r by (simp add: dropWhile_append2)
qed

lemma read_number_int:
  assumes "number_end rest"
  shows "read_number (int_dec i @ rest) = Some (PyInt i, rest)"
proof (cases "i < 0")
  case False
  let ?t = "nat_dec (nat i)"
  have d: "list_all is_digit ?t" "?t \<noteq> []" "dec_val ?t = nat i"
    using nat_dec_digits [of "nat i"] by simp_all
  then have nc: "list_all number_char ?t"
    by (simp add: list_all_iff is_digit_number_char)
  have "?t \<noteq> ''-''"
    using d(1) by (auto simp: is_digit_def)
  moreover have "?t = ''0'' \<or> hd ?t \<noteq> CHR ''0''"
    using nat_dec_leading [of "nat i"] by (auto simp: nat_dec.simps [of 0] digit_lower_def)
  ultimately show ?thesis
    using False d by (simp add: read_number_def int_dec_def number_token [OF nc assms])
next
  case True
  let ?t = "nat_dec (nat (- i))"
  have d: "list_all is_digit ?t" "?t \<noteq> []" "dec_val ?t = nat (- i)"
    using nat_dec_digits [of "nat (- i)"] by simp_all
  then have "list_all number_char ?t"
    by (simp add: list_all_iff is_digit_number_char)
  moreover have "number_char CHR ''-''"
    by (simp add: number_char_def)
  ultimately have nc: "list_all number_char (CHR ''-'' # ?t)"
    by simp
  have "int_dec i = CHR ''-'' # ?t"
    using True by (simp add: int_dec_def)
  moreover have "hd ?t \<noteq> CHR ''0''"
    using nat_dec_leading [of "nat (- i)"] True by auto
  ultimately show ?thesis
    using True d number_token [OF nc assms]
    by (simp add: read_number_def is_digit_def)
qed

lemma read_number_float:
  assumes "float_text r" "r \<noteq> ''nan''" "r \<noteq> ''inf''" "r \<noteq> ''-inf''" "number_end rest"
  shows "read_number (r @ rest) = Some (PyFloat r, rest)"
proof -
  from assms have nc: "list_all number_char r" and ne: "r \<noteq> []"
    and nd: "\<not> list_all is_digit r" and nn: "\<not> (hd r = CHR ''-'' \<and> list_all is_digit (tl r))"
    by (simp_all add: float_text_def)
  from nn have "r \<noteq> ''-''"
    by auto
  with ne nd nn show ?thesis
    by (simp add: read_number_def number_token [OF nc assms(5)])
qed

lemma number_char_first:
  "number_char c \<Longrightarrow>
     c \<noteq> CHR 0x22 \<and> c \<noteq> CHR ''['' \<and> c \<noteq> CHR ''{'' \<and> c \<noteq> CHR ''n'' \<and> c \<noteq> CHR ''t'' \<and>
     c \<noteq> CHR ''f'' \<and> c \<noteq> CHR ''N'' \<and> c \<noteq> CHR ''I''"
  by (auto simp: number_char_def)

lemma read_value_number:
  assumes "tok \<noteq> []" "list_all number_char tok"
  shows "read_value (Suc n) level (tok @ rest) = read_number (tok @ rest)"
proof -
  from assms obtain c cs where tok: "tok = c # cs" and c: "number_char c"
    by (cases tok) auto
  from number_char_first [OF c] show ?thesis
    by (simp add: tok)
qed

lemma line_start_eq [simp]: "line_start level = newline_indent level"
  by (induction level) (simp_all add: line_start_def newline_indent_def)

lemma strip_Cons [simp]: "strip (c # p) (c # s) = strip p s"
  by (simp add: strip_def)

lemma strip_Nil [simp]: "strip [] s = Some s"
  by (simp add: strip_def)

lemma strip_other [simp]: "c \<noteq> d \<Longrightarrow> strip (c # p) (d # s) = None"
  by (simp add: strip_def)

lemma strip_newline_indent [simp]:
  "strip (newline_indent l) (newline_indent l @ r) = Some r"
  "strip (newline_indent l @ p) (newline_indent l @ s) = strip p s"
  "strip (CHR '','' # p) (newline_indent l @ r) = None"
  "strip '']'' (newline_indent l @ r) = None"
  "strip ''}'' (newline_indent l @ r) = None"
  by (simp_all add: strip_def newline_indent_def)

lemma number_end_separators [simp]:
  "number_end []" "number_end (CHR '','' # r)" "number_end (newline_indent l @ r)"
  by (simp_all add: number_end_def newline_indent_def number_char_def)

lemma int_dec_token: "int_dec i \<noteq> [] \<and> list_all number_char (int_dec i)"
proof -
  have "list_all number_char (nat_dec k)" "nat_dec k \<noteq> []" for k
    using nat_dec_digits [of k] by (simp_all add: list_all_iff is_digit_number_char)
  then show ?thesis
    by (simp add: int_dec_def number_char_def)
qed

lemma read_value_atoms:
  "read_value (Suc n) level (''null'' @ rest) = Some (PyNone, rest)"
  "read_value (Suc n) level (''true'' @ rest) = Some (PyBool True, rest)"
  "read_value (Suc n) level (''false'' @ rest) = Some (PyBool False, rest)"
  "read_value (Suc n) level (''NaN'' @ rest) = Some (PyFloat ''nan'', rest)"
  "read_value (Suc n) level (''Infinity'' @ rest) = Some (PyFloat ''inf'', rest)"
  "read_value (Suc n) level (''[]'' @ rest) = Some (PyList [], rest)"
  "read_value (Suc n) level (''{}'' @ rest) = Some (PyDict [], rest)"
  by simp_all

lemma read_value_minus_infinity:
  "read_value (Suc n) level (''-Infinity'' @ rest) = Some (PyFloat ''-inf'', rest)"
  by (simp add: read_number_def number_char_def)

lemma read_value_int:
  "number_end rest \<Longrightarrow> read_value (Suc n) level (int_dec i @ rest) = Some (PyInt i, rest)"
  using int_dec_token [of i] by (simp add: read_value_number read_number_int)

lemma read_value_float:
  assumes "float_text r" "number_end rest"
  shows "read_value (Suc n) level (float_json r @ rest) = Some (PyFloat r, rest)"
proof (cases "r = ''nan'' \<or> r = ''inf'' \<or> r = ''-inf''")
  case True
  then show ?thesis
    using read_value_atoms(4,5) [of n level rest] read_value_minus_infinity [of n level rest]
    by (auto simp: float_json_def)
next
  case False
  with assms(1) have "r \<noteq> []" "list_all number_char r"
    by (simp_all add: float_text_def)
  with False assms show ?thesis
    by (simp add: float_json_def read_value_number read_number_float)
qed

lemma read_value_string:
  "read_value (Suc n) level (encode_basestring_ascii s @ rest) = Some (PyStr s, rest)"
  by (simp add: encode_basestring_ascii_def read_string_encode)

lemma read_items_join:
  assumes "xs \<noteq> []"
    and "\<And>x n rest. x \<in> set xs \<Longrightarrow> fuel x \<le> n \<Longrightarrow> number_end rest \<Longrightarrow>
           read_value n (Suc level) (iterencode (Suc level) x @ rest) = Some (x, rest)"
    and "sum_list (map (\<lambda>x. Suc (fuel x)) xs) \<le> n"
  shows "read_items n level
           (join ('','' @ newline_indent (Suc level)) (map (iterencode (Suc level)) xs) @
            newline_indent level @ '']'' @ rest) = Some (xs, rest)"
  using assms
proof (induction xs arbitrary: n rule: list_nonempty_induct)
  case (single x)
  then obtain m where n: "n = Suc m" and m: "fuel x \<le> m"
    by (cases n) auto
  have "read_value m (Suc level)
      (iterencode (Suc level) x @ newline_indent level @ '']'' @ rest) =
      Some (x, newline_indent level @ '']'' @ rest)"
    by (rule single(1)) (simp_all add: m)
  then show ?case
    by (simp add: n)
next
  case (cons x xs)
  then obtain m where n: "n = Suc m" and m: "fuel x \<le> m"
    and ms: "sum_list (map (\<lambda>x. Suc (fuel x)) xs) \<le> m"
    by (cases n) auto
  from cons(1) obtain y ys where xs: "xs = y # ys"
    by (cases xs) auto
  let ?tail = "join ('','' @ newline_indent (Suc level)) (map (iterencode (Suc level)) xs) @
            newline_indent level @ '']'' @ rest"
  have first: "read_value m (Suc level)
      (iterencode (Suc level) x @ CHR '','' # newline_indent (Suc level) @ ?tail) =
      Some (x, CHR '','' # newline_indent (Suc level) @ ?tail)"
    by (rule cons(3)) (simp_all add: m)
  have others: "read_items m level ?tail = Some (xs, rest)"
    by (rule cons(2)) (simp_all add: cons(3) ms)
  from first others show ?case
    by (simp add: n xs)
qed

lemma read_member_key:
  "strip [CHR 0x22] (encode_basestring_ascii k @ s) = Some (concat (map escape_char k) @ CHR 0x22 # s)"
  by (simp add: encode_basestring_ascii_def)

lemma read_members_join:
  assumes "kvs \<noteq> []"
    and "\<And>kv n rest. kv \<in> set kvs \<Longrightarrow> fuel (snd kv) \<le> n \<Longrightarrow> number_end rest \<Longrightarrow>
           read_value n (Suc level) (iterencode (Suc level) (snd kv) @ rest) = Some (snd kv, rest)"
    and "sum_list (map (\<lambda>kv. Suc (fuel (snd kv))) kvs) \<le> n"
  shows "read_members n level
           (join ('','' @ newline_indent (Suc level))
              (map (\<lambda>kv. encode_basestring_ascii (fst kv) @ '': '' @
                          iterencode (Suc level) (snd kv)) kvs) @
            newline_indent level @ ''}'' @ rest) = Some (kvs, rest)"
  using assms
proof (induction kvs arbitrary: n rule: list_nonempty_induct)
  case (single kv)
  then obtain m where n: "n = Suc m" and m: "fuel (snd kv) \<le> m"
    by (cases n) auto
  have "read_value m (Suc level)
      (iterencode (Suc level) (snd kv) @ newline_indent level @ ''}'' @ rest) =
      Some (snd kv, newline_indent level @ ''}'' @ rest)"
    by (rule single(1)) (simp_all add: m)
  then show ?case
    by (simp add: n read_member_key read_string_encode)
next
  case (cons kv kvs)
  then obtain m where n: "n = Suc m" and m: "fuel (snd kv) \<le> m"
    and ms: "sum_list (map (\<lambda>kv. Suc (fuel (snd kv))) kvs) \<le> m"
    by (cases n) auto
  from cons(1) obtain y ys where kvs: "kvs = y # ys"
    by (cases kvs) auto
  let ?tail = "join ('','' @ newline_indent (Suc level))
              (map (\<lambda>kv. encode_basestring_ascii (fst kv) @ '': '' @
                          iterencode (Suc level) (snd kv)) kvs) @
            newline_indent level @ ''}'' @ rest"
  have first: "read_value m (Suc level)
      (iterencode (Suc level) (snd kv) @ CHR '','' # newline_indent (Suc level) @ ?tail) =
      Some (snd kv, CHR '','' # newline_indent (Suc level) @ ?tail)"
    by (rule cons(3)) (simp_all add: m)
  have others: "read_members m level ?tail = Some (kvs, rest)"
    by (rule cons(2)) (simp_all add: cons(3) ms)
  from first others show ?case
    by (simp add: n kvs read_member_key read_string_encode)
qed

lemma read_value_iterencode:
  "wf_json v \<Longrightarrow> fuel v \<le> n \<Longrightarrow> number_end rest \<Longrightarrow>
     read_value n level (iterencode level v @ rest) = Some (v, rest)"
proof (induction level v arbitrary: n rest rule: iterencode.induct)
  case (1 level)
  then show ?case by (cases n) simp_all
next
  case (2 level b)
  then show ?case by (cases n; cases b) simp_all
next
  case (3 level i)
  then show ?case by (cases n) (simp_all add: read_value_int del: read_value.simps)
next
  case (4 level r)
  then show ?case by (cases n) (simp_all add: read_value_float del: read_value.simps)
next
  case (5 level s)
  then show ?case by (cases n) (simp_all add: read_value_string del: read_value.simps)
next
  case (6 level xs)
  from 6(3) obtain m where n: "n = Suc m" and m: "sum_list (map (\<lambda>x. Suc (fuel x)) xs) \<le> m"
    by (cases n) auto
  show ?case
  proof (cases "xs = []")
    case True
    then show ?thesis by (simp add: n)
  next
    case False
    have "read_items m level
           (join ('','' @ newline_indent (Suc level)) (map (iterencode (Suc level)) xs) @
            newline_indent level @ '']'' @ rest) = Some (xs, rest)"
    proof (rule read_items_join [OF False _ m])
      fix x k r
      assume "x \<in> set xs" "fuel x \<le> k" "number_end r"
      with 6(1) [OF False] 6(2) show
        "read_value k (Suc level) (iterencode (Suc level) x @ r) = Some (x, r)"
        by (simp add: list_all_iff)
    qed
    with False show ?thesis
      by (simp add: n)
  qed
next
  case (7 level kvs)
  from 7(3) obtain m where n: "n = Suc m"
    and m: "sum_list (map (\<lambda>kv. Suc (fuel (snd kv))) kvs) \<le> m"
    by (cases n) auto
  show ?case
  proof (cases "kvs = []")
    case True
    then show ?thesis by (simp add: n)
  next
    case False
    have "read_members m level
           (join ('','' @ newline_indent (Suc level))
              (map (\<lambda>kv. encode_basestring_ascii (fst kv) @ '': '' @
                          iterencode (Suc level) (snd kv)) kvs) @
            newline_indent level @ ''}'' @ rest) = Some (kvs, rest)"
    proof (rule read_members_join [OF False _ m])
      fix kv k r
      assume "kv \<in> set kvs" "fuel (snd kv) \<le> k" "number_end r"
      with 7(1) [OF False] 7(2) show
        "read_value k (Suc level) (iterencode (Suc level) (snd kv) @ r) = Some (snd kv, r)"
        by (simp add: list_all_iff)
    qed
    with False show ?thesis
      by (simp add: n)
  qed
qed

lemma fuel_join:
  assumes "sep \<noteq> []" "\<And>x. x \<in> set xs \<Longrightarrow> f x \<le> length (g x)"
  shows "sum_list (map (\<lambda>x. Suc (f x)) xs) \<le> Suc (length (join sep (map g xs)))"
  using assms(2)
proof (induction xs)
  case Nil
  then show ?case by simp
next
  case (Cons x xs)
  have x: "f x \<le> length (g x)"
    by (rule Cons(2)) simp
  show ?case
  proof (cases xs)
    case Nil
    with x show ?thesis by simp
  next
    case (Cons y ys)
    have "sum_list (map (\<lambda>x. Suc (f x)) xs) \<le> Suc (length (join sep (map g xs)))"
      by (rule Cons.IH) (simp add: Cons.prems)
    moreover have "Suc 0 \<le> length sep"
      using assms(1) by (cases sep) simp_all
    ultimately show ?thesis
      using x by (simp add: Cons del: One_nat_def)
  qed
qed

lemma fuel_le_length: "wf_json v \<Longrightarrow> fuel v \<le> length (iterencode level v)"
proof (induction level v rule: iterencode.induct)
  case (3 level i)
  then show ?case
    using int_dec_token [of i] by (cases "int_dec i") simp_all
next
  case (4 level r)
  then show ?case
    by (cases r) (auto simp: float_json_def float_text_def)
next
  case (5 level s)
  then show ?case by (simp add: encode_basestring_ascii_def)
next
  case (6 level xs)
  show ?case
  proof (cases "xs = []")
    case True
    then show ?thesis by simp
  next
    case False
    have "sum_list (map (\<lambda>x. Suc (fuel x)) xs) \<le>
        Suc (length (join ('','' @ newline_indent (Suc level)) (map (iterencode (Suc level)) xs)))"
      using 6(1) [OF False] 6(2) by (intro fuel_join) (simp_all add: list_all_iff)
    with False show ?thesis
      by (simp add: newline_indent_def)
  qed
next
  case (7 level kvs)
  show ?case
  proof (cases "kvs = []")
    case True
    then show ?thesis by simp
  next
    case False
    have "sum_list (map (\<lambda>kv. Suc (fuel (snd kv))) kvs) \<le>
        Suc (length (join ('','' @ newline_indent (Suc level))
          (map (\<lambda>kv. encode_basestring_ascii (fst kv) @ '': '' @
                          iterencode (Suc level) (snd kv)) kvs)))"
    proof (rule fuel_join)
      fix kv
      assume "kv \<in> set kvs"
      with 7(1) [OF False] 7(2) have "fuel (snd kv) \<le> length (iterencode (Suc level) (snd kv))"
        by (simp add: list_all_iff)
      then show "fuel (snd kv) \<le> length (encode_basestring_ascii (fst kv) @ '': '' @
          iterencode (Suc level) (snd kv))"
        by simp
    qed simp
    with False show ?thesis
      by (simp add: newline_indent_def)
  qed
qed simp_all

lemma read_json_dumps: "wf_json v \<Longrightarrow> read_json (json_dumps_indent2 v) = Some v"
  using read_value_iterencode [of v "length (iterencode 0 v)" "[]" 0] fuel_le_length [of v 0]
  by (simp add: read_json_def json_dumps_indent2_def)

section \<open>The reader accepts nothing but the rendering\<close>

lemma strip_SomeD: "strip p s = Some r \<Longrightarrow> s = p @ r"
  by (auto simp: strip_def elim!: prefixE split: if_splits)

lemma hex_val_SomeD:
  assumes "hex_val h = Some x"
  shows "x < 16 \<and> digit_lower x = h"
proof (cases "h \<in> set ''0123456789''")
  case True
  have "\<forall>c \<in> set ''0123456789''. of_char c - 48 < (16::nat) \<and> digit_lower (of_char c - 48) = c"
    by code_simp
  with True have "of_char h - 48 < (16::nat) \<and> digit_lower (of_char h - 48) = h"
    by blast
  moreover from assms True have "x = of_char h - 48"
    by (simp only: hex_val_def if_True option.inject)
  ultimately show ?thesis
    by simp
next
  case False
  with assms have rest: "(if h \<in> set ''abcdef'' then Some (of_char h - 87) else None) = Some x"
    by (simp only: hex_val_def if_False)
  have mem: "h \<in> set ''abcdef''"
  proof (rule ccontr)
    assume "h \<notin> set ''abcdef''"
    with rest show False by (simp only: if_False option.distinct)
  qed
  with rest have x: "x = of_char h - 87"
    by (simp only: if_True option.inject)
  have "\<forall>c \<in> set ''abcdef''. of_char c - 87 < (16::nat) \<and> digit_lower (of_char c - 87) = c"
    by code_simp
  with mem have "of_char h - 87 < (16::nat) \<and> digit_lower (of_char h - 87) = h"
    by blast
  with x show ?thesis
    by simp
qed

lemma escape_char_raw:
  "c \<noteq> CHR 0x22 \<Longrightarrow> c \<noteq> CHR 0x5C \<Longrightarrow> 32 \<le> (of_char c :: nat) \<Longrightarrow> (of_char c :: nat) < 127 \<Longrightarrow>
     escape_char c = [c]"
  by (auto simp: escape_char_def)

lemma escape_char_by_code:
  assumes "escaped_by_code d"
  shows "escape_char d =
     [CHR 0x5C, CHR ''u'', CHR ''0'', CHR ''0'',
      digit_lower (of_char d div 16), digit_lower (of_char d mod 16)]"
proof -
  from assms have range: "(of_char d :: nat) < 32 \<or> 127 \<le> (of_char d :: nat)"
    and short: "d \<noteq> CHR 0x08" "d \<noteq> CHR 0x09" "d \<noteq> CHR 0x0A" "d \<noteq> CHR 0x0C" "d \<noteq> CHR 0x0D"
    by (simp_all add: escaped_by_code_def)
  have "d \<noteq> CHR 0x22"
  proof
    assume "d = CHR 0x22"
    then have "(of_char d :: nat) = 34" by simp
    with range show False by simp
  qed
  moreover have "d \<noteq> CHR 0x5C"
  proof
    assume "d = CHR 0x5C"
    then have "(of_char d :: nat) = 92" by simp
    with range show False by simp
  qed
  moreover from range have "\<not> (32 \<le> (of_char d :: nat) \<and> (of_char d :: nat) < 127)"
    by arith
  ultimately show ?thesis
    using short by (simp add: escape_char_def)
qed

lemma unescape_SomeD: "unescape cs = Some (d, r) \<Longrightarrow> CHR 0x5C # cs = escape_char d @ r"
proof (cases cs)
  case Nil
  assume "unescape cs = Some (d, r)"
  with Nil show ?thesis by simp
next
  case (Cons e es)
  assume u: "unescape cs = Some (d, r)"
  show ?thesis
  proof (cases "e = CHR ''u''")
    case False
    with u Cons show ?thesis
      by (auto simp: escape_char_def split: if_splits)
  next
    case True
    with u Cons obtain h l x y where es: "es = CHR ''0'' # CHR ''0'' # h # l # r"
      and hx: "hex_val h = Some x" and ly: "hex_val l = Some y"
      and esc: "escaped_by_code (char_of (16 * x + y))" and d: "d = char_of (16 * x + y)"
      by (auto split: if_splits list.splits option.splits)
    from hex_val_SomeD [OF hx] hex_val_SomeD [OF ly]
    have x: "x < 16" "digit_lower x = h" and y: "y < 16" "digit_lower y = l"
      by simp_all
    then have code: "(of_char d :: nat) = 16 * x + y"
      by (simp add: d)
    from x y have "(16 * x + y) div 16 = x" "(16 * x + y) mod 16 = y"
      by simp_all
    with esc show ?thesis
      using x y by (simp add: escape_char_by_code d [symmetric] code Cons True es)
  qed
qed

lemma read_string_SomeD:
  "read_string cs = Some (t, r) \<Longrightarrow> cs = concat (map escape_char t) @ CHR 0x22 # r"
proof (induction cs arbitrary: t r rule: read_string.induct)
  case 1
  then show ?case by (simp add: read_string.simps)
next
  case (2 c cs)
  show ?case
  proof (cases "c = CHR 0x22")
    case True
    with 2(3) show ?thesis by (simp add: read_string.simps)
  next
    case quote: False
    show ?thesis
    proof (cases "c = CHR 0x5C")
      case True
      with quote 2(3) obtain d r1 t' where u: "unescape cs = Some (d, r1)"
        and rs: "read_string r1 = Some (t', r)" and t: "t = d # t'"
        by (auto simp: read_string.simps split: option.splits)
      have "r1 = concat (map escape_char t') @ CHR 0x22 # r"
        using 2(1) [OF quote True u refl rs] .
      with unescape_SomeD [OF u] True t show ?thesis
        by simp
    next
      case False
      with quote 2(3) obtain t' where p: "32 \<le> (of_char c :: nat)" "(of_char c :: nat) < 127"
        and rs: "read_string cs = Some (t', r)" and t: "t = c # t'"
        by (auto simp: read_string.simps split: option.splits if_splits)
      have "cs = concat (map escape_char t') @ CHR 0x22 # r"
        using 2(2) [OF quote False _ rs] p by simp
      with escape_char_raw [OF quote False p] t show ?thesis
        by simp
    qed
  qed
qed


lemma digit_value:
  "is_digit c \<Longrightarrow> of_char c - 48 < (10::nat) \<and> digit_lower (of_char c - 48) = c \<and>
     (of_char c - 48 = (0::nat) \<longrightarrow> c = CHR ''0'')"
proof -
  have "\<forall>d \<in> set ''0123456789''. of_char d - 48 < (10::nat) \<and> digit_lower (of_char d - 48) = d \<and>
      (of_char d - 48 = (0::nat) \<longrightarrow> d = CHR ''0'')"
    by code_simp
  moreover assume "is_digit c"
  ultimately show ?thesis
    unfolding is_digit_def by blast
qed

lemma nat_dec_dec_val:
  "list_all is_digit ds \<Longrightarrow> ds \<noteq> [] \<Longrightarrow> hd ds \<noteq> CHR ''0'' \<Longrightarrow>
     nat_dec (dec_val ds) = ds \<and> 0 < dec_val ds"
proof (induction ds rule: rev_induct)
  case Nil
  then show ?case by simp
next
  case (snoc c ds)
  from snoc(2) have c: "is_digit c" and ds: "list_all is_digit ds"
    by simp_all
  note v = digit_value [OF c]
  show ?case
  proof (cases "ds = []")
    case True
    with snoc(4) v show ?thesis
      by (auto simp: dec_val_def nat_dec.simps [of "of_char c - 48"])
  next
    case False
    with snoc(4) have "hd ds \<noteq> CHR ''0''"
      by simp
    with snoc(1) ds False have ih: "nat_dec (dec_val ds) = ds" "0 < dec_val ds"
      by simp_all
    let ?n = "10 * dec_val ds + (of_char c - 48)"
    from ih(2) v have "\<not> ?n < 10" "?n div 10 = dec_val ds" "?n mod 10 = of_char c - 48"
      by simp_all
    with ih v show ?thesis
      by (simp add: dec_val_snoc nat_dec.simps [of ?n])
  qed
qed

lemma nat_dec_zero: "nat_dec 0 = ''0''"
  by code_simp

lemma number_token_split:
  "s = takeWhile number_char s @ dropWhile number_char s"
  "list_all number_char (takeWhile number_char s)"
  by (simp, unfold list_all_iff, blast dest: set_takeWhileD)

lemma float_json_number: "list_all number_char r \<Longrightarrow> float_json r = r"
proof -
  have "\<not> list_all number_char ''nan''" "\<not> list_all number_char ''inf''"
    "\<not> list_all number_char ''-inf''"
    by code_simp+
  moreover assume "list_all number_char r"
  ultimately have "r \<noteq> ''nan''" "r \<noteq> ''inf''" "r \<noteq> ''-inf''"
    by blast+
  then show ?thesis
    by (simp add: float_json_def)
qed

lemma read_number_SomeD:
  assumes "read_number s = Some (v, rest)"
  shows "s = iterencode level v @ rest \<and> wf_json v"
proof -
  let ?tok = "takeWhile number_char s"
  let ?rest = "dropWhile number_char s"
  note s = number_token_split [of s]
  from assms have ne: "?tok \<noteq> []"
    by (auto simp: read_number_def Let_def split: if_splits)
  show ?thesis
  proof (cases "?tok = ''-''")
    case True
    with assms obtain "strip ''Infinity'' ?rest = Some rest" "v = PyFloat ''-inf''"
      by (auto simp: read_number_def Let_def split: option.splits)
    with strip_SomeD [of "''Infinity''" ?rest rest] s(1) True show ?thesis
      by (simp add: float_json_def float_text_def)
  next
    case minus: False
    show ?thesis
    proof (cases "list_all is_digit ?tok")
      case True
      with assms ne minus have canon: "?tok = ''0'' \<or> hd ?tok \<noteq> CHR ''0''"
        and v: "v = PyInt (int (dec_val ?tok))" and rest: "rest = ?rest"
        by (auto simp: read_number_def Let_def split: if_splits)
      have "nat_dec (dec_val ?tok) = ?tok"
      proof (cases "?tok = ''0''")
        case True
        then show ?thesis by (simp add: dec_val_def nat_dec_zero)
      next
        case False
        with canon True ne show ?thesis
          by (simp add: nat_dec_dec_val)
      qed
      with s(1) v rest show ?thesis
        by (simp add: int_dec_def)
    next
      case digits: False
      show ?thesis
      proof (cases "hd ?tok = CHR ''-'' \<and> list_all is_digit (tl ?tok)")
        case True
        with assms ne minus digits have lead: "hd (tl ?tok) \<noteq> CHR ''0''"
          and v: "v = PyInt (- int (dec_val (tl ?tok)))" and rest: "rest = ?rest"
          by (auto simp: read_number_def Let_def split: if_splits)
        from True ne have tok: "?tok = CHR ''-'' # tl ?tok"
          by (cases ?tok) simp_all
        with minus have "tl ?tok \<noteq> []"
          by auto
        with True lead have d: "nat_dec (dec_val (tl ?tok)) = tl ?tok" "0 < dec_val (tl ?tok)"
          by (simp_all add: nat_dec_dec_val)
        then have "int_dec (- int (dec_val (tl ?tok))) = ?tok"
          using tok by (simp add: int_dec_def)
        with s(1) v rest show ?thesis
          by simp
      next
        case False
        with assms ne minus digits have v: "v = PyFloat ?tok" and rest: "rest = ?rest"
          by (auto simp: read_number_def Let_def split: if_splits)
        from False digits ne s(2) have "float_text ?tok"
          by (simp add: float_text_def)
        with s v rest ne show ?thesis
          by (simp add: float_json_number)
      qed
    qed
  qed
qed

lemma join_Cons: "ys \<noteq> [] \<Longrightarrow> join sep (y # ys) = y @ sep @ join sep ys"
  by (cases ys) simp_all

lemma read_SomeD:
  shows "read_value n level s = Some (v, rest) \<Longrightarrow> s = iterencode level v @ rest \<and> wf_json v"
    and "read_items n level s = Some (xs, rest) \<Longrightarrow>
           xs \<noteq> [] \<and> list_all wf_json xs \<and>
           s = join ('','' @ newline_indent (Suc level)) (map (iterencode (Suc level)) xs) @
               newline_indent level @ '']'' @ rest"
    and "read_members n level s = Some (kvs, rest) \<Longrightarrow>
           kvs \<noteq> [] \<and> list_all (\<lambda>kv. wf_json (snd kv)) kvs \<and>
           s = join ('','' @ newline_indent (Suc level))
                 (map (\<lambda>kv. encode_basestring_ascii (fst kv) @ '': '' @
                             iterencode (Suc level) (snd kv)) kvs) @
               newline_indent level @ ''}'' @ rest"
proof (induction n level s and n level s and n level s
    arbitrary: v rest and xs rest and kvs rest
    rule: read_value_read_items_read_members.induct)
  case (1 level s)
  then show ?case by simp
next
  case (2 n level)
  then show ?case by simp
next
  case (3 n level c cs)
  note run = "3.prems"
  consider (str) "c = CHR 0x22" | (list) "c = CHR ''[''" | (dict) "c = CHR ''{''"
    | (null) "c = CHR ''n''" | (true) "c = CHR ''t''" | (false) "c = CHR ''f''"
    | (nan) "c = CHR ''N''" | (inf) "c = CHR ''I''"
    | (num) "c \<noteq> CHR 0x22" "c \<noteq> CHR ''[''" "c \<noteq> CHR ''{''" "c \<noteq> CHR ''n''"
        "c \<noteq> CHR ''t''" "c \<noteq> CHR ''f''" "c \<noteq> CHR ''N''" "c \<noteq> CHR ''I''"
    by blast
  then show ?case
  proof cases
    case str
    with run obtain t where "read_string cs = Some (t, rest)" "v = PyStr t"
      by (auto split: option.splits)
    with read_string_SomeD [of cs t rest] str show ?thesis
      by (simp add: encode_basestring_ascii_def)
  next
    case list
    show ?thesis
    proof (cases "strip '']'' cs")
      case (Some r)
      with run list strip_SomeD [OF Some] show ?thesis
        by auto
    next
      case None
      with run list obtain r0 ys where r0: "strip (line_start (Suc level)) cs = Some r0"
        and items: "read_items n level r0 = Some (ys, rest)" and v: "v = PyList ys"
        by (auto split: option.splits)
      from list have "c \<noteq> CHR 0x22"
        by simp
      from "3.IH"(1) [OF this list None r0 items]
      have "ys \<noteq> []" "list_all wf_json ys"
        "r0 = join ('','' @ newline_indent (Suc level)) (map (iterencode (Suc level)) ys) @
               newline_indent level @ '']'' @ rest"
        by simp_all
      with strip_SomeD [OF r0] list v show ?thesis
        by simp
    qed
  next
    case dict
    show ?thesis
    proof (cases "strip ''}'' cs")
      case (Some r)
      with run dict strip_SomeD [OF Some] show ?thesis
        by auto
    next
      case None
      with run dict obtain r0 ys where r0: "strip (line_start (Suc level)) cs = Some r0"
        and members: "read_members n level r0 = Some (ys, rest)" and v: "v = PyDict ys"
        by (auto split: option.splits)
      from dict have ne: "c \<noteq> CHR 0x22" "c \<noteq> CHR ''[''"
        by simp_all
      from "3.IH"(2) [OF ne dict None r0 members]
      have "ys \<noteq> []" "list_all (\<lambda>kv. wf_json (snd kv)) ys"
        "r0 = join ('','' @ newline_indent (Suc level))
                 (map (\<lambda>kv. encode_basestring_ascii (fst kv) @ '': '' @
                             iterencode (Suc level) (snd kv)) ys) @
               newline_indent level @ ''}'' @ rest"
        by simp_all
      with strip_SomeD [OF r0] dict v show ?thesis
        by simp
    qed
  next
    case null
    with run obtain r where "strip ''ull'' cs = Some r" "v = PyNone" "rest = r"
      by (auto split: option.splits)
    with strip_SomeD [of "''ull''" cs r] null show ?thesis
      by simp
  next
    case true
    with run obtain r where "strip ''rue'' cs = Some r" "v = PyBool True" "rest = r"
      by (auto split: option.splits)
    with strip_SomeD [of "''rue''" cs r] true show ?thesis
      by simp
  next
    case false
    with run obtain r where "strip ''alse'' cs = Some r" "v = PyBool False" "rest = r"
      by (auto split: option.splits)
    with strip_SomeD [of "''alse''" cs r] false show ?thesis
      by simp
  next
    case nan
    with run obtain r where "strip ''aN'' cs = Some r" "v = PyFloat ''nan''" "rest = r"
      by (auto split: option.splits)
    with strip_SomeD [of "''aN''" cs r] nan show ?thesis
      by (simp add: float_json_def float_text_def)
  next
    case inf
    with run obtain r where "strip ''nfinity'' cs = Some r" "v = PyFloat ''inf''" "rest = r"
      by (auto split: option.splits)
    with strip_SomeD [of "''nfinity''" cs r] inf show ?thesis
      by (simp add: float_json_def float_text_def)
  next
    case num
    with run have "read_number (c # cs) = Some (v, rest)"
      by simp
    then show ?thesis
      by (rule read_number_SomeD)
  qed
next
  case (4 level s)
  then show ?case by simp
next
  case (5 n level s)
  from "5.prems" obtain x r where x: "read_value n (Suc level) s = Some (x, r)"
    by (auto split: option.splits)
  from "5.IH"(1) [OF x] have s: "s = iterencode (Suc level) x @ r" and wf: "wf_json x"
    by simp_all
  show ?case
  proof (cases "strip ('','' @ line_start (Suc level)) r")
    case (Some r')
    with "5.prems" x obtain ys where ys: "read_items n level r' = Some (ys, rest)"
      and xs: "xs = x # ys"
      by (auto split: option.splits)
    from "5.IH"(2) [OF x refl Some ys]
    have "ys \<noteq> []" "list_all wf_json ys"
      "r' = join ('','' @ newline_indent (Suc level)) (map (iterencode (Suc level)) ys) @
               newline_indent level @ '']'' @ rest"
      by simp_all
    with strip_SomeD [OF Some] s wf xs show ?thesis
      by (simp add: join_Cons)
  next
    case None
    with "5.prems" x obtain r' where r': "strip (line_start level @ '']'') r = Some r'"
      and xs: "xs = [x]" and rest: "rest = r'"
      by (auto split: option.splits)
    with strip_SomeD [OF r'] s wf show ?thesis
      by simp
  qed
next
  case (6 level s)
  then show ?case by simp
next
  case (7 n level s)
  from "7.prems" obtain s1 k s2 s3 x r where s1: "strip [CHR 0x22] s = Some s1"
    and k: "read_string s1 = Some (k, s2)" and s3: "strip '': '' s2 = Some s3"
    and x: "read_value n (Suc level) s3 = Some (x, r)"
    by (auto split: option.splits)
  from "7.IH"(1) [OF s1 k refl s3 x] have v: "s3 = iterencode (Suc level) x @ r" and wf: "wf_json x"
    by simp_all
  from strip_SomeD [OF s1] read_string_SomeD [OF k] strip_SomeD [OF s3] v
  have s: "s = encode_basestring_ascii k @ '': '' @ iterencode (Suc level) x @ r"
    by (simp add: encode_basestring_ascii_def)
  show ?case
  proof (cases "strip ('','' @ line_start (Suc level)) r")
    case (Some r')
    with "7.prems" s1 k s3 x obtain ys where ys: "read_members n level r' = Some (ys, rest)"
      and kvs: "kvs = (k, x) # ys"
      by (auto split: option.splits)
    from "7.IH"(2) [OF s1 k refl s3 x refl Some ys]
    have "ys \<noteq> []" "list_all (\<lambda>kv. wf_json (snd kv)) ys"
      "r' = join ('','' @ newline_indent (Suc level))
                 (map (\<lambda>kv. encode_basestring_ascii (fst kv) @ '': '' @
                             iterencode (Suc level) (snd kv)) ys) @
               newline_indent level @ ''}'' @ rest"
      by simp_all
    with strip_SomeD [OF Some] s wf kvs show ?thesis
      by (simp add: join_Cons)
  next
    case None
    with "7.prems" s1 k s3 x obtain r' where r': "strip (line_start level @ ''}'') r = Some r'"
      and kvs: "kvs = [(k, x)]" and rest: "rest = r'"
      by (auto split: option.splits)
    with strip_SomeD [OF r'] s wf show ?thesis
      by simp
  qed
qed

lemma read_json_SomeD: "read_json t = Some v \<Longrightarrow> t = json_dumps_indent2 v \<and> wf_json v"
  using read_SomeD(1) [of "length t" 0 t v "[]"]
  by (auto simp: read_json_def json_dumps_indent2_def split: option.splits if_splits)

section \<open>The whole invocation\<close>

lemma forecast_body_text:
  "json_dumps_indent2 forecast_body =
     ''{'' @ [CHR 0x0A] @
     ''  '' @ [CHR 0x22] @ ''current'' @ [CHR 0x22] @ '': {'' @ [CHR 0x0A] @
     ''    '' @ [CHR 0x22] @ ''temperature_2m'' @ [CHR 0x22] @ '': 5.0'' @ [CHR 0x0A] @
     ''  }'' @ [CHR 0x0A] @
     ''}''"
  by code_simp

lemma berlin_geocode_result:
  "geocode_result name geocoding_found = Inr berlin_candidate"
  by (simp add: geocode_result_def geocoding_found_def requests_raise_for_status_def
      requests_ok_def response_json_def)

lemma berlin_run:
  "open_meteo_tool (example_env clock geocoding_found) berlin_request world0 =
     (Inr (json_dumps_indent2 forecast_body),
      \<lparr>clock_reads = 1,
       http_log = [RequestsGet (geocode_url ''Berlin'' (Some ''DE'')),
                   HttpxGet (forecast_url
                     (berlin_params (date_str (clock 0)) ''2024-02-01''))]\<rparr>)"
proof -
  have sel: "location_name berlin_request = ''Berlin''" "country berlin_request = Some ''DE''"
    by (simp_all add: berlin_request_def)
  have res: "forecast_result forecast_ok = Inr (json_dumps_indent2 forecast_body)"
    by (simp add: forecast_result_def forecast_ok_def httpx_raise_for_status_def
        httpx_is_success_def response_json_def)
  show ?thesis
    by (simp add: open_meteo_tool_unfold example_env_sel sel berlin_geocode_result
        berlin_forecast_dict res world0_def)
qed

lemma dated_run:
  "open_meteo_tool (example_env clock geocoding_found) dated_request w =
     (Inr (json_dumps_indent2 forecast_body),
      \<lparr>clock_reads = Suc (clock_reads w),
       http_log = http_log w @
                  [RequestsGet (geocode_url ''Berlin'' (Some ''DE'')),
                   HttpxGet (forecast_url (berlin_params ''2024-01-01'' ''2024-02-01''))]\<rparr>)"
proof -
  have sel: "location_name dated_request = ''Berlin''" "country dated_request = Some ''DE''"
    by (simp_all add: dated_request_def berlin_request_def)
  have res: "forecast_result forecast_ok = Inr (json_dumps_indent2 forecast_body)"
    by (simp add: forecast_result_def forecast_ok_def httpx_raise_for_status_def
        httpx_is_success_def response_json_def)
  have dict: "forecast_dict d dated_request berlin_candidate =
      Inr (berlin_params ''2024-01-01'' ''2024-02-01'')" for d
    by (simp add: forecast_dict_def dated_request_def berlin_request_def berlin_candidate_def
        berlin_params_def)
  show ?thesis
    by (simp add: open_meteo_tool_unfold example_env_sel sel berlin_geocode_result dict res)
qed

text \<open>
  C6. In every invocation that sends both requests, where the forecast request is
  answered with a 2xx status and a JSON body, the tool returns \<^verbatim>\<open>json.dumps\<close> of that body
  with an indent of two spaces: a text that depends on the body alone. The forecast
  request is only sent after the geocoding request was answered with an accepted status.
  The text returned is a JSON document in the two-space layout, and reading it gives back
  exactly the body: no two bodies share a text. It is also the only text that the reader
  takes for the body, so the layout, the escapes and the spelling of the numbers are all
  fixed by the body.
\<close>

theorem output_is_indented_forecast_body:
  assumes calls: "outgoing e input w = [RequestsGet gu, HttpxGet fu]"
    and reply: "httpx_reply e fu = Responded r"
    and ok: "httpx_is_success (status_code r)"
    and body: "body_json r = Some body"
  shows "fst (open_meteo_tool e input w) = Inr (json_dumps_indent2 body) \<and>
         gu = geocode_url (location_name input) (country input) \<and>
         (\<exists>r1. requests_reply e gu = Responded r1 \<and> requests_ok (status_code r1)) \<and>
         (wf_json body \<longrightarrow>
            read_json (json_dumps_indent2 body) = Some body \<and>
            (\<forall>other. wf_json other \<and> json_dumps_indent2 other = json_dumps_indent2 body \<longrightarrow>
               other = body)) \<and>
         (\<forall>doc. read_json doc = Some body \<longrightarrow> doc = json_dumps_indent2 body)"
proof -
  have sole: "doc = json_dumps_indent2 body" if "read_json doc = Some body" for doc
    using read_json_SomeD [OF that] by simp
  have reread: "read_json (json_dumps_indent2 v) = Some v" if "wf_json v" for v
    using that by (rule read_json_dumps)
  have unique: "other = body"
    if "wf_json body" "wf_json other" "json_dumps_indent2 other = json_dumps_indent2 body"
    for other
    using reread [OF that(1)] reread [OF that(2)] that(3) by simp
  have res: "forecast_result r = Inr (json_dumps_indent2 body)"
    using ok body by (simp add: forecast_result_def httpx_raise_for_status_def response_json_def)
  have accepted: "requests_ok (status_code r1)" if "geocode_result name r1 = Inr geo"
    for name r1 geo
    using that
    by (simp add: geocode_result_def requests_raise_for_status_def split: if_splits)
  from calls reply res have "fst (open_meteo_tool e input w) = Inr (json_dumps_indent2 body) \<and>
         gu = geocode_url (location_name input) (country input) \<and>
         (\<exists>r1. requests_reply e gu = Responded r1 \<and> requests_ok (status_code r1))"
    unfolding outgoing_def open_meteo_tool_unfold
    by (auto split: sum.splits http_outcome.splits dest: accepted)
  with reread unique sole show ?thesis
    by blast
qed

theorem output_is_indented_forecast_body_witness:
  "outgoing (example_env rolling_clock geocoding_found) berlin_request world0 =
     [RequestsGet (geocode_url ''Berlin'' (Some ''DE'')),
      HttpxGet (forecast_url (berlin_params ''2024-01-05'' ''2024-02-01''))] \<and>
   httpx_reply (example_env rolling_clock geocoding_found)
     (forecast_url (berlin_params ''2024-01-05'' ''2024-02-01'')) = Responded forecast_ok \<and>
   httpx_is_success (status_code forecast_ok) \<and>
   body_json forecast_ok = Some forecast_body \<and>
   wf_json forecast_body \<and>
   read_json (json_dumps_indent2 forecast_body) = Some forecast_body \<and>
   fst (open_meteo_tool (example_env rolling_clock geocoding_found) berlin_request world0) =
     Inr (''{'' @ [CHR 0x0A] @
          ''  '' @ [CHR 0x22] @ ''current'' @ [CHR 0x22] @ '': {'' @ [CHR 0x0A] @
          ''    '' @ [CHR 0x22] @ ''temperature_2m'' @ [CHR 0x22] @ '': 5.0'' @ [CHR 0x0A] @
          ''  }'' @ [CHR 0x0A] @
          ''}'')"
proof -
  have calls: "outgoing (example_env rolling_clock geocoding_found) berlin_request world0 =
     [RequestsGet (geocode_url ''Berlin'' (Some ''DE'')),
      HttpxGet (forecast_url (berlin_params ''2024-01-05'' ''2024-02-01''))]"
    unfolding outgoing_def berlin_run by (simp add: date_str_rolling_clock world0_def)
  have ok: "httpx_is_success (status_code forecast_ok)"
    by (simp add: forecast_ok_def httpx_is_success_def)
  have body: "body_json forecast_ok = Some forecast_body"
    by (simp add: forecast_ok_def)
  have wf: "wf_json forecast_body"
    by (simp add: forecast_body_def float_text_def number_char_def is_digit_def)
  note t = output_is_indented_forecast_body [OF calls example_env_sel(3) ok body]
  from t have out: "fst (open_meteo_tool (example_env rolling_clock geocoding_found)
      berlin_request world0) = Inr (json_dumps_indent2 forecast_body)"
    by simp
  from t wf have reread: "read_json (json_dumps_indent2 forecast_body) = Some forecast_body"
    by simp
  from calls ok body wf out reread show ?thesis
    by (simp add: forecast_body_text example_env_sel)
qed

section \<open>Determinism of the outgoing queries\<close>

lemma forecast_dict_explicit_dates:
  assumes "opt_truthy (start_date input)" "opt_truthy (end_date input)"
  shows "forecast_dict d input geo = forecast_dict d' input geo"
proof -
  have "opt_or (start_date input) x = opt_or (start_date input) y"
    and "opt_or (end_date input) x = opt_or (end_date input) y" for x y
    using assms by (cases "start_date input"; cases "end_date input"; simp)+
  then show ?thesis
    unfolding forecast_dict_def by (auto split: sum.split)
qed

text \<open>
  C7. Take one request that gives a non-empty \<^verbatim>\<open>start_date\<close> and a non-empty
  \<^verbatim>\<open>end_date\<close>, so that no date is defaulted, and two invocations of the tool on it, in
  any two environments (any two clocks) and any two worlds, that get the same answer to
  the geocoding request. Both send the same requests: the same geocoding URL, which
  depends on the location name and the country only, and the same forecast URL. For one
  and the same candidate the forecast parameters built are equal as well.
\<close>

theorem explicit_requests_send_identical_queries:
  assumes sd: "start_date input = Some s" "s \<noteq> []"
    and ed: "end_date input = Some t" "t \<noteq> []"
    and same: "requests_reply e1 (geocode_url (location_name input) (country input)) =
               requests_reply e2 (geocode_url (location_name input) (country input))"
  shows "outgoing e1 input w1 = outgoing e2 input w2 \<and>
         take 1 (outgoing e1 input w1) =
           [RequestsGet (geocode_url (location_name input) (country input))] \<and>
         fst (get_forecast_params e1 input geo w1) = fst (get_forecast_params e2 input geo w2)"
proof -
  have dict: "forecast_dict (utc_clock e1 (clock_reads w1)) input g =
      forecast_dict (utc_clock e2 (clock_reads w2)) input g" for g
    using sd ed by (intro forecast_dict_explicit_dates) simp_all
  show ?thesis
    by (simp add: outgoing_def open_meteo_tool_unfold geocode_unfold get_forecast_params_unfold
        same dict split: sum.split http_outcome.split)
qed

theorem explicit_requests_send_identical_queries_witness:
  "start_date dated_request = Some ''2024-01-01'' \<and> ''2024-01-01'' \<noteq> [] \<and>
   end_date dated_request = Some ''2024-02-01'' \<and> ''2024-02-01'' \<noteq> [] \<and>
   date_str (rolling_clock 0) \<noteq> date_str (still_clock 0) \<and>
   outgoing (example_env rolling_clock geocoding_found) dated_request world0 =
     outgoing (example_env still_clock geocoding_found) dated_request world0 \<and>
   outgoing (example_env still_clock geocoding_found) dated_request world0 =
     [RequestsGet (geocode_url ''Berlin'' (Some ''DE'')),
      HttpxGet (forecast_url (berlin_params ''2024-01-01'' ''2024-02-01''))]"
proof -
  have sd: "start_date dated_request = Some ''2024-01-01''" "''2024-01-01'' \<noteq> []"
    and ed: "end_date dated_request = Some ''2024-02-01''" "''2024-02-01'' \<noteq> []"
    by (simp_all add: dated_request_def berlin_request_def)
  have same: "requests_reply (example_env rolling_clock geocoding_found)
        (geocode_url (location_name dated_request) (country dated_request)) =
      requests_reply (example_env still_clock geocoding_found)
        (geocode_url (location_name dated_request) (country dated_request))"
    by (simp add: example_env_sel)
  have out: "outgoing (example_env still_clock geocoding_found) dated_request world0 =
     [RequestsGet (geocode_url ''Berlin'' (Some ''DE'')),
      HttpxGet (forecast_url (berlin_params ''2024-01-01'' ''2024-02-01''))]"
    unfolding outgoing_def dated_run by simp
  from explicit_requests_send_identical_queries [OF sd ed same, of world0 world0]
  have "outgoing (example_env rolling_clock geocoding_found) dated_request world0 =
     outgoing (example_env still_clock geocoding_found) dated_request world0"
    by simp
  with sd ed out show ?thesis
    by (simp add: date_str_rolling_clock date_str_still_clock)
qed

section \<open>Empty text fields and the single clock reading\<close>

lemma empty_date_params:
  "get_forecast_params e (input\<lparr>start_date := Some []\<rparr>) geo w =
     get_forecast_params e (input\<lparr>start_date := None\<rparr>) geo w"
  "get_forecast_params e (input\<lparr>end_date := Some []\<rparr>) geo w =
     get_forecast_params e (input\<lparr>end_date := None\<rparr>) geo w"
  "get_forecast_params e (input\<lparr>country := c\<rparr>) geo w = get_forecast_params e input geo w"
  by (simp_all add: get_forecast_params_unfold forecast_dict_def split: sum.split)

lemma empty_country_geocode:
  "geocode e name (Some []) w = geocode e name None w"
  by (simp add: geocode_unfold geocode_url_def geocode_params_def)

text \<open>
  C8. An optional text field that holds the empty string behaves as an omitted one.
  With the empty string as country the geocoding parameters are those of a request without
  country, with no \<^verbatim>\<open>country\<close> key, and \<^verbatim>\<open>_geocode\<close> does the same in both cases. With
  the empty string as \<^verbatim>\<open>start_date\<close> or \<^verbatim>\<open>end_date\<close> the forecast parameters are those of a
  request without that date, and the parameter holds the current UTC date, not the empty
  string. The whole invocation is the same in each of the three cases.
\<close>

theorem empty_text_counts_as_omitted:
  "geocode_params name (Some []) = geocode_params name None \<and>
   ''country'' \<notin> fst ` set (geocode_params name (Some [])) \<and>
   geocode e name (Some []) w = geocode e name None w \<and>
   get_forecast_params e (input\<lparr>start_date := Some []\<rparr>) geo w =
     get_forecast_params e (input\<lparr>start_date := None\<rparr>) geo w \<and>
   get_forecast_params e (input\<lparr>end_date := Some []\<rparr>) geo w =
     get_forecast_params e (input\<lparr>end_date := None\<rparr>) geo w \<and>
   (get_forecast_params e input geo w = (Inr params, w') \<longrightarrow>
      (start_date input = Some [] \<longrightarrow>
         map_of params ''start_date'' =
           Some (PyStr (date_str (utc_clock e (clock_reads w))))) \<and>
      (end_date input = Some [] \<longrightarrow>
         map_of params ''end_date'' =
           Some (PyStr (date_str (utc_clock e (clock_reads w)))))) \<and>
   open_meteo_tool e (input\<lparr>country := Some []\<rparr>) w =
     open_meteo_tool e (input\<lparr>country := None\<rparr>) w \<and>
   open_meteo_tool e (input\<lparr>start_date := Some []\<rparr>) w =
     open_meteo_tool e (input\<lparr>start_date := None\<rparr>) w \<and>
   open_meteo_tool e (input\<lparr>end_date := Some []\<rparr>) w =
     open_meteo_tool e (input\<lparr>end_date := None\<rparr>) w"
proof -
  have "get_forecast_params e input geo w = (Inr params, w') \<Longrightarrow>
      (start_date input = Some [] \<longrightarrow>
         map_of params ''start_date'' =
           Some (PyStr (date_str (utc_clock e (clock_reads w))))) \<and>
      (end_date input = Some [] \<longrightarrow>
         map_of params ''end_date'' =
           Some (PyStr (date_str (utc_clock e (clock_reads w)))))"
  proof -
    assume "get_forecast_params e input geo w = (Inr params, w')"
    then have "forecast_dict (utc_clock e (clock_reads w)) input geo = Inr params"
      by (simp add: get_forecast_params_unfold)
    then show ?thesis
      by (elim forecast_dict_Inr) simp
  qed
  moreover have "geocode_params name (Some []) = geocode_params name None"
    and "''country'' \<notin> fst ` set (geocode_params name (Some []))"
    by (simp_all add: geocode_params_def)
  moreover have "open_meteo_tool e (input\<lparr>country := Some []\<rparr>) w =
      open_meteo_tool e (input\<lparr>country := None\<rparr>) w"
    unfolding open_meteo_tool_def empty_date_params by (simp add: empty_country_geocode)
  moreover have "open_meteo_tool e (input\<lparr>start_date := Some []\<rparr>) w =
      open_meteo_tool e (input\<lparr>start_date := None\<rparr>) w"
    and "open_meteo_tool e (input\<lparr>end_date := Some []\<rparr>) w =
      open_meteo_tool e (input\<lparr>end_date := None\<rparr>) w"
    unfolding open_meteo_tool_def empty_date_params by simp_all
  ultimately show ?thesis
    by (simp add: empty_date_params empty_country_geocode)
qed

theorem empty_text_counts_as_omitted_witness:
  "start_date (berlin_request\<lparr>start_date := Some '''', end_date := Some ''''\<rparr>) = Some '''' \<and>
   end_date (berlin_request\<lparr>start_date := Some '''', end_date := Some ''''\<rparr>) = Some '''' \<and>
   get_forecast_params (example_env rolling_clock geocoding_found)
       (berlin_request\<lparr>start_date := Some '''', end_date := Some ''''\<rparr>) berlin_candidate world0 =
     (Inr (berlin_params ''2024-01-05'' ''2024-01-05''), world0\<lparr>clock_reads := 1\<rparr>) \<and>
   map_of (berlin_params ''2024-01-05'' ''2024-01-05'') ''start_date'' =
     Some (PyStr ''2024-01-05'') \<and>
   map_of (berlin_params ''2024-01-05'' ''2024-01-05'') ''end_date'' =
     Some (PyStr ''2024-01-05'')"
proof -
  have sel: "start_date (berlin_request\<lparr>start_date := Some '''', end_date := Some ''''\<rparr>) = Some ''''"
    "end_date (berlin_request\<lparr>start_date := Some '''', end_date := Some ''''\<rparr>) = Some ''''"
    by simp_all
  have run: "get_forecast_params (example_env rolling_clock geocoding_found)
       (berlin_request\<lparr>start_date := Some '''', end_date := Some ''''\<rparr>) berlin_candidate world0 =
     (Inr (berlin_params ''2024-01-05'' ''2024-01-05''), world0\<lparr>clock_reads := 1\<rparr>)"
    by (simp add: get_forecast_params_unfold example_env_sel date_str_rolling_clock world0_def
        forecast_dict_def berlin_request_def berlin_candidate_def berlin_params_def)
  note t = empty_text_counts_as_omitted [where e = "example_env rolling_clock geocoding_found"
      and input = "berlin_request\<lparr>start_date := Some '''', end_date := Some ''''\<rparr>"
      and geo = berlin_candidate and w = world0
      and params = "berlin_params ''2024-01-05'' ''2024-01-05''"
      and w' = "world0\<lparr>clock_reads := 1\<rparr>" and name = "''Berlin''"]
  from t run sel have "map_of (berlin_params ''2024-01-05'' ''2024-01-05'') ''start_date'' =
      Some (PyStr ''2024-01-05'')"
    and "map_of (berlin_params ''2024-01-05'' ''2024-01-05'') ''end_date'' =
      Some (PyStr ''2024-01-05'')"
    by (simp_all add: example_env_sel world0_def date_str_rolling_clock)
  with run sel show ?thesis
    by simp
qed

text \<open>
  C9. Whenever the forecast parameters are built for a request whose \<^verbatim>\<open>start_date\<close> and
  \<^verbatim>\<open>end_date\<close> are both omitted or empty, the two parameters are equal, both being the
  text of the one date that the single clock reading of \<^verbatim>\<open>_get_forecast_params\<close> returned;
  this holds for every clock, also one whose next reading would fall on another day. One
  invocation of the tool reads the clock at most once.
\<close>

theorem defaulted_dates_share_one_clock_reading:
  assumes run: "get_forecast_params e input geo w = (Inr params, w')"
    and sd: "start_date input = None \<or> start_date input = Some []"
    and ed: "end_date input = None \<or> end_date input = Some []"
  shows "map_of params ''start_date'' = map_of params ''end_date'' \<and>
         map_of params ''start_date'' = Some (PyStr (date_str (utc_clock e (clock_reads w)))) \<and>
         clock_reads w' = Suc (clock_reads w) \<and>
         clock_reads (snd (open_meteo_tool e input w)) \<le> Suc (clock_reads w)"
proof -
  from run have dict: "forecast_dict (utc_clock e (clock_reads w)) input geo = Inr params"
    and w': "w' = w\<lparr>clock_reads := Suc (clock_reads w)\<rparr>"
    by (simp_all add: get_forecast_params_unfold)
  have once: "clock_reads (snd (open_meteo_tool e input w)) \<le> Suc (clock_reads w)"
    by (simp add: open_meteo_tool_unfold split: sum.split http_outcome.split)
  from sd ed have "opt_or (start_date input) d = d" "opt_or (end_date input) d = d" for d
    by auto
  with dict w' once show ?thesis
    by (elim forecast_dict_Inr) simp
qed

theorem defaulted_dates_share_one_clock_reading_witness:
  "start_date (berlin_request\<lparr>end_date := Some ''''\<rparr>) = None \<and>
   end_date (berlin_request\<lparr>end_date := Some ''''\<rparr>) = Some '''' \<and>
   rolling_clock 0 \<noteq> rolling_clock 1 \<and>
   get_forecast_params (example_env rolling_clock geocoding_found)
       (berlin_request\<lparr>end_date := Some ''''\<rparr>) berlin_candidate world0 =
     (Inr (berlin_params ''2024-01-05'' ''2024-01-05''), world0\<lparr>clock_reads := 1\<rparr>) \<and>
   map_of (berlin_params ''2024-01-05'' ''2024-01-05'') ''start_date'' =
     map_of (berlin_params ''2024-01-05'' ''2024-01-05'') ''end_date''"
proof -
  have sd: "start_date (berlin_request\<lparr>end_date := Some ''''\<rparr>) = None \<or>
      start_date (berlin_request\<lparr>end_date := Some ''''\<rparr>) = Some ''''"
    and ed: "end_date (berlin_request\<lparr>end_date := Some ''''\<rparr>) = None \<or>
      end_date (berlin_request\<lparr>end_date := Some ''''\<rparr>) = Some ''''"
    by (simp_all add: berlin_request_def)
  have run: "get_forecast_params (example_env rolling_clock geocoding_found)
       (berlin_request\<lparr>end_date := Some ''''\<rparr>) berlin_candidate world0 =
     (Inr (berlin_params ''2024-01-05'' ''2024-01-05''), world0\<lparr>clock_reads := 1\<rparr>)"
    by (simp add: get_forecast_params_unfold example_env_sel date_str_rolling_clock world0_def
        forecast_dict_def berlin_request_def berlin_candidate_def berlin_params_def)
  from defaulted_dates_share_one_clock_reading [OF run sd ed]
  have "map_of (berlin_params ''2024-01-05'' ''2024-01-05'') ''start_date'' =
     map_of (berlin_params ''2024-01-05'' ''2024-01-05'') ''end_date''"
    by simp
  with run show ?thesis
    by (simp add: berlin_request_def rolling_clock_def)
qed

section \<open>Missing coordinates\<close>

text \<open>
  C10. For a geocoding candidate that is a JSON object: when it has both a \<^verbatim>\<open>latitude\<close>
  and a \<^verbatim>\<open>longitude\<close> entry, building the forecast parameters succeeds; when one of the
  two is missing, it raises \<^verbatim>\<open>KeyError\<close> for the first missing key, the whole invocation
  fails with that error without calling the forecast endpoint, and a \<^verbatim>\<open>KeyError\<close> is
  neither the location-not-found error nor a transport error.
\<close>

theorem candidate_fields_decide_parameter_building:
  "(map_of kvs ''latitude'' = Some lat \<and> map_of kvs ''longitude'' = Some lon \<longrightarrow>
      fst (get_forecast_params e input (PyDict kvs) w) =
        Inr [(''latitude'', lat),
             (''longitude'', lon),
             (''current'', PyStr ''temperature_2m,rain,relative_humidity_2m,wind_speed_10m''),
             (''daily'', PyStr ''temperature_2m_max,temperature_2m_min,rain_sum''),
             (''timezone'', PyStr ''UTC''),
             (''start_date'',
              PyStr (opt_or (start_date input) (date_str (utc_clock e (clock_reads w))))),
             (''end_date'',
              PyStr (opt_or (end_date input) (date_str (utc_clock e (clock_reads w))))),
             (''temperature_unit'', PyStr (temperature_unit input))]) \<and>
   (map_of kvs ''latitude'' = None \<or> map_of kvs ''longitude'' = None \<longrightarrow>
      fst (get_forecast_params e input (PyDict kvs) w) =
        Inl (KeyError (StrKey
          (if map_of kvs ''latitude'' = None then ''latitude'' else ''longitude''))) \<and>
      (geocode e (location_name input) (country input) w = (Inr (PyDict kvs), w1) \<longrightarrow>
         fst (open_meteo_tool e input w) =
           Inl (KeyError (StrKey
             (if map_of kvs ''latitude'' = None then ''latitude'' else ''longitude''))) \<and>
         forecast_calls (http_log (snd (open_meteo_tool e input w))) =
           forecast_calls (http_log w))) \<and>
   \<not> is_location_not_found (KeyError k) \<and> \<not> is_transport_error (KeyError k)"
proof -
  have present: "fst (get_forecast_params e input (PyDict kvs) w) =
        Inr [(''latitude'', lat),
             (''longitude'', lon),
             (''current'', PyStr ''temperature_2m,rain,relative_humidity_2m,wind_speed_10m''),
             (''daily'', PyStr ''temperature_2m_max,temperature_2m_min,rain_sum''),
             (''timezone'', PyStr ''UTC''),
             (''start_date'',
              PyStr (opt_or (start_date input) (date_str (utc_clock e (clock_reads w))))),
             (''end_date'',
              PyStr (opt_or (end_date input) (date_str (utc_clock e (clock_reads w))))),
             (''temperature_unit'', PyStr (temperature_unit input))]"
    if "map_of kvs ''latitude'' = Some lat" "map_of kvs ''longitude'' = Some lon"
    using that by (simp add: get_forecast_params_unfold forecast_dict_def)
  have missing: "forecast_dict d input (PyDict kvs) =
        Inl (KeyError (StrKey
          (if map_of kvs ''latitude'' = None then ''latitude'' else ''longitude'')))"
    if "map_of kvs ''latitude'' = None \<or> map_of kvs ''longitude'' = None" for d
    using that by (auto simp: forecast_dict_def split: option.splits)
  have tool: "fst (open_meteo_tool e input w) =
           Inl (KeyError (StrKey
             (if map_of kvs ''latitude'' = None then ''latitude'' else ''longitude''))) \<and>
         forecast_calls (http_log (snd (open_meteo_tool e input w))) =
           forecast_calls (http_log w)"
    if "map_of kvs ''latitude'' = None \<or> map_of kvs ''longitude'' = None"
      and "geocode e (location_name input) (country input) w = (Inr (PyDict kvs), w1)"
  proof -
    from that(2) have w1: "w1 = w\<lparr>http_log := http_log w @
        [RequestsGet (geocode_url (location_name input) (country input))]\<rparr>"
      by (simp add: geocode_unfold)
    show ?thesis
      using that(2) missing [OF that(1)]
      by (simp add: open_meteo_tool_def get_forecast_params_unfold w1 geocode_call_not_forecast)
  qed
  from present missing tool show ?thesis
    by (simp add: get_forecast_params_unfold)
qed

theorem candidate_fields_decide_parameter_building_witness:
  "map_of [(''latitude'', PyFloat ''52.52''), (''longitude'', PyFloat ''13.41'')] ''latitude'' =
     Some (PyFloat ''52.52'') \<and>
   map_of [(''latitude'', PyFloat ''52.52''), (''longitude'', PyFloat ''13.41'')] ''longitude'' =
     Some (PyFloat ''13.41'') \<and>
   fst (get_forecast_params (example_env rolling_clock geocoding_found) berlin_request
          (PyDict [(''latitude'', PyFloat ''52.52''), (''longitude'', PyFloat ''13.41'')]) world0) =
     Inr (berlin_params ''2024-01-05'' ''2024-02-01'') \<and>
   map_of [(''latitude'', PyFloat ''52.52'')] ''longitude'' = None \<and>
   geocode (example_env rolling_clock geocoding_no_longitude) (location_name berlin_request)
       (country berlin_request) world0 =
     (Inr (PyDict [(''latitude'', PyFloat ''52.52'')]),
      world0\<lparr>http_log := [RequestsGet (geocode_url ''Berlin'' (Some ''DE''))]\<rparr>) \<and>
   fst (open_meteo_tool (example_env rolling_clock geocoding_no_longitude) berlin_request world0) =
     Inl (KeyError (StrKey ''longitude'')) \<and>
   forecast_calls
     (http_log (snd (open_meteo_tool (example_env rolling_clock geocoding_no_longitude)
        berlin_request world0))) = []"
proof -
  have geo: "geocode (example_env rolling_clock geocoding_no_longitude)
       (location_name berlin_request) (country berlin_request) world0 =
     (Inr (PyDict [(''latitude'', PyFloat ''52.52'')]),
      world0\<lparr>http_log := [RequestsGet (geocode_url ''Berlin'' (Some ''DE''))]\<rparr>)"
    by (simp add: geocode_unfold example_env_sel geocode_result_def geocoding_no_longitude_def
        requests_raise_for_status_def requests_ok_def response_json_def berlin_request_def
        world0_def)
  note found = candidate_fields_decide_parameter_building
    [where kvs = "[(''latitude'', PyFloat ''52.52''), (''longitude'', PyFloat ''13.41'')]"
      and lat = "PyFloat ''52.52''" and lon = "PyFloat ''13.41''"
      and e = "example_env rolling_clock geocoding_found" and input = berlin_request
      and w = world0 and ?w1.0 = world0 and k = "StrKey ''latitude''"]
  note lost = candidate_fields_decide_parameter_building
    [where kvs = "[(''latitude'', PyFloat ''52.52'')]"
      and lat = "PyFloat ''52.52''" and lon = "PyFloat ''13.41''"
      and e = "example_env rolling_clock geocoding_no_longitude" and input = berlin_request
      and w = world0
      and ?w1.0 = "world0\<lparr>http_log := [RequestsGet (geocode_url ''Berlin'' (Some ''DE''))]\<rparr>"
      and k = "StrKey ''longitude''"]
  from found have a: "fst (get_forecast_params (example_env rolling_clock geocoding_found)
      berlin_request
      (PyDict [(''latitude'', PyFloat ''52.52''), (''longitude'', PyFloat ''13.41'')]) world0) =
     Inr (berlin_params ''2024-01-05'' ''2024-02-01'')"
    by (simp add: example_env_sel world0_def date_str_rolling_clock berlin_request_def
        berlin_params_def)
  from lost geo have b: "fst (open_meteo_tool (example_env rolling_clock geocoding_no_longitude)
        berlin_request world0) = Inl (KeyError (StrKey ''longitude''))"
    and c: "forecast_calls
     (http_log (snd (open_meteo_tool (example_env rolling_clock geocoding_no_longitude)
        berlin_request world0))) = []"
    by (simp_all add: world0_def only_geocode_call)
  from a b c geo show ?thesis
    by simp
qed

end
